theory Spec2Isabelle
  imports Complex_Main "HOL-Library.Log_Nat" "HOL-Library.Multiset"
begin

section \<open>analyze\_tokens.py: token usage per provider\<close>

text \<open>
  A shallow embedding of \<^verbatim>\<open>analyze_tokens.py\<close>. The script works on whatever
  \<^verbatim>\<open>json.load\<close> returns, so the model keeps Python's dynamic values: a JSON
  document is a \<open>json\<close> value, a number is an unbounded \<open>int\<close> or a double, and every
  exception the script can raise is a value of \<open>py_error\<close>. A \<open>char\<close> stands for one
  character of a Python \<open>str\<close>.
\<close>

subsection \<open>Doubles\<close>

text \<open>
  A finite double is the rational number it denotes. \<open>round_double\<close> rounds a rational to
  the nearest double (53 bits of precision, ties to even, subnormal below \<open>2 powi -1022\<close>);
  a result of magnitude \<open>2 ^ 1024\<close> or more is an overflow. The sign of a zero is not
  kept.
\<close>

datatype pyfloat = Fin rat | PInf | NInf | NaN

definition ilog2 :: "rat \<Rightarrow> int" where
  "ilog2 q = (if 1 \<le> \<bar>q\<bar> then bitlen \<lfloor>\<bar>q\<bar>\<rfloor> - 1 else - bitlen (\<lceil>1 / \<bar>q\<bar>\<rceil> - 1))"

definition round_half_even :: "rat \<Rightarrow> int" where
  "round_half_even q =
     (let f = \<lfloor>q\<rfloor>; r = q - of_int f
      in if r < 1 / 2 then f else if 1 / 2 < r then f + 1 else if even f then f else f + 1)"

definition round_double :: "rat \<Rightarrow> rat" where
  "round_double q =
     (if q = 0 then 0
      else let e = max (ilog2 q - 52) (- 1074)
           in of_int (round_half_even (q / 2 powi e)) * 2 powi e)"

definition float_of_rat :: "rat \<Rightarrow> pyfloat" where
  "float_of_rat q =
     (let r = round_double q
      in if 2 ^ 1024 \<le> r then PInf else if r \<le> - (2 ^ 1024) then NInf else Fin r)"

fun fneg :: "pyfloat \<Rightarrow> pyfloat" where
  "fneg (Fin a) = Fin (- a)"
| "fneg PInf = NInf"
| "fneg NInf = PInf"
| "fneg NaN = NaN"

fun fsign :: "pyfloat \<Rightarrow> int" where
  "fsign (Fin a) = (if a < 0 then - 1 else if a = 0 then 0 else 1)"
| "fsign PInf = 1"
| "fsign NInf = - 1"
| "fsign NaN = 0"

fun fadd :: "pyfloat \<Rightarrow> pyfloat \<Rightarrow> pyfloat" where
  "fadd (Fin a) (Fin b) = float_of_rat (a + b)"
| "fadd NaN y = NaN"
| "fadd x NaN = NaN"
| "fadd PInf NInf = NaN"
| "fadd NInf PInf = NaN"
| "fadd PInf y = PInf"
| "fadd x PInf = PInf"
| "fadd NInf y = NInf"
| "fadd x NInf = NInf"

definition fsub :: "pyfloat \<Rightarrow> pyfloat \<Rightarrow> pyfloat" where
  "fsub x y = fadd x (fneg y)"

definition fmul :: "pyfloat \<Rightarrow> pyfloat \<Rightarrow> pyfloat" where
  "fmul x y =
     (if x = NaN \<or> y = NaN then NaN
      else case (x, y) of
        (Fin a, Fin b) \<Rightarrow> float_of_rat (a * b)
      | _ \<Rightarrow> (let s = fsign x * fsign y in if s = 0 then NaN else if 0 < s then PInf else NInf))"

fun fless :: "pyfloat \<Rightarrow> pyfloat \<Rightarrow> bool" where
  "fless (Fin a) (Fin b) = (a < b)"
| "fless NaN y = False"
| "fless x NaN = False"
| "fless x NInf = False"
| "fless NInf y = True"
| "fless PInf y = False"
| "fless x PInf = True"

definition feq :: "pyfloat \<Rightarrow> pyfloat \<Rightarrow> bool" where
  "feq x y = (x \<noteq> NaN \<and> x = y)"

subsection \<open>Python values, exceptions and arithmetic\<close>

datatype json =
    JNull
  | JBool bool
  | JInt int
  | JFloat pyfloat
  | JStr string
  | JArr "json list"
  | JObj "(string \<times> json) list"

datatype py_error =
    AttributeError
  | TypeError
  | OverflowError
  | ZeroDivisionError
  | KeyError
  | OSError
  | UnicodeDecodeError

datatype pynum = PInt int | PFloat pyfloat

definition ebind :: "py_error + 'a \<Rightarrow> ('a \<Rightarrow> py_error + 'b) \<Rightarrow> py_error + 'b" where
  "ebind m f = (case m of Inl e \<Rightarrow> Inl e | Inr x \<Rightarrow> f x)"

definition float_of_int :: "int \<Rightarrow> py_error + pyfloat" where
  "float_of_int n =
     (let r = round_double (of_int n)
      in if 2 ^ 1024 \<le> \<bar>r\<bar> then Inl OverflowError else Inr (Fin r))"

definition int_truediv :: "int \<Rightarrow> int \<Rightarrow> py_error + pyfloat" where
  "int_truediv a b =
     (if b = 0 then Inl ZeroDivisionError
      else let r = round_double (of_int a / of_int b)
           in if 2 ^ 1024 \<le> \<bar>r\<bar> then Inl OverflowError else Inr (Fin r))"

definition fdiv :: "pyfloat \<Rightarrow> pyfloat \<Rightarrow> py_error + pyfloat" where
  "fdiv x y =
     (if y = Fin 0 then Inl ZeroDivisionError
      else Inr (if x = NaN \<or> y = NaN then NaN
                else case (x, y) of
                  (Fin a, Fin b) \<Rightarrow> float_of_rat (a / b)
                | (Fin a, _) \<Rightarrow> Fin 0
                | (_, Fin b) \<Rightarrow> (if 0 < fsign x * fsign y then PInf else NInf)
                | _ \<Rightarrow> NaN))"

fun to_float :: "pynum \<Rightarrow> py_error + pyfloat" where
  "to_float (PInt n) = float_of_int n"
| "to_float (PFloat x) = Inr x"

fun py_add :: "pynum \<Rightarrow> pynum \<Rightarrow> py_error + pynum" where
  "py_add (PInt a) (PInt b) = Inr (PInt (a + b))"
| "py_add x y = ebind (to_float x) (\<lambda>a. ebind (to_float y) (\<lambda>b. Inr (PFloat (fadd a b))))"

fun py_sub :: "pynum \<Rightarrow> pynum \<Rightarrow> py_error + pynum" where
  "py_sub (PInt a) (PInt b) = Inr (PInt (a - b))"
| "py_sub x y = ebind (to_float x) (\<lambda>a. ebind (to_float y) (\<lambda>b. Inr (PFloat (fsub a b))))"

fun py_mul :: "pynum \<Rightarrow> pynum \<Rightarrow> py_error + pynum" where
  "py_mul (PInt a) (PInt b) = Inr (PInt (a * b))"
| "py_mul x y = ebind (to_float x) (\<lambda>a. ebind (to_float y) (\<lambda>b. Inr (PFloat (fmul a b))))"

fun py_truediv :: "pynum \<Rightarrow> pynum \<Rightarrow> py_error + pynum" where
  "py_truediv (PInt a) (PInt b) = ebind (int_truediv a b) (\<lambda>z. Inr (PFloat z))"
| "py_truediv x y =
     ebind (to_float x) (\<lambda>a. ebind (to_float y) (\<lambda>b. ebind (fdiv a b) (\<lambda>z. Inr (PFloat z))))"

text \<open>Python compares an int with a float by their exact values.\<close>

fun exact_value :: "pynum \<Rightarrow> pyfloat" where
  "exact_value (PInt n) = Fin (of_int n)"
| "exact_value (PFloat x) = x"

definition py_lt :: "pynum \<Rightarrow> pynum \<Rightarrow> bool" where
  "py_lt a b = fless (exact_value a) (exact_value b)"

definition py_eq :: "pynum \<Rightarrow> pynum \<Rightarrow> bool" where
  "py_eq a b = feq (exact_value a) (exact_value b)"

text \<open>The right operand of \<^verbatim>\<open>+=\<close>: a bool counts as an int, anything that is not a
  number is a \<^verbatim>\<open>TypeError\<close>.\<close>

fun as_number :: "json \<Rightarrow> py_error + pynum" where
  "as_number (JBool b) = Inr (PInt (if b then 1 else 0))"
| "as_number (JInt n) = Inr (PInt n)"
| "as_number (JFloat x) = Inr (PFloat x)"
| "as_number v = Inl TypeError"

definition py_iadd :: "pynum \<Rightarrow> json \<Rightarrow> py_error + pynum" where
  "py_iadd a v = ebind (as_number v) (py_add a)"

subsection \<open>Dictionaries\<close>

text \<open>
  \<^verbatim>\<open>d.get(key, default)\<close> on a parsed JSON object, whose keys are strings, each once;
  on anything else the attribute \<^verbatim>\<open>get\<close> is missing.
\<close>

fun dict_get :: "json \<Rightarrow> string \<Rightarrow> json \<Rightarrow> py_error + json" where
  "dict_get (JObj kvs) k d = Inr (case map_of kvs k of Some v \<Rightarrow> v | None \<Rightarrow> d)"
| "dict_get v k d = Inl AttributeError"

text \<open>\<^verbatim>\<open>for result in results\<close>: a list gives its elements, a str its characters, a dict
  its keys; nothing else is iterable.\<close>

fun iterate :: "json \<Rightarrow> py_error + json list" where
  "iterate (JArr xs) = Inr xs"
| "iterate (JStr s) = Inr (map (\<lambda>c. JStr [c]) s)"
| "iterate (JObj kvs) = Inr (map (\<lambda>kv. JStr (fst kv)) kvs)"
| "iterate v = Inl TypeError"

text \<open>
  A dict built by the script is an association list in insertion order. Keys are hashable
  JSON values, equal as Python has them: \<^verbatim>\<open>1 == 1.0 == True\<close>, and a NaN equals nothing.
\<close>

type_synonym 'v pydict = "(json \<times> 'v) list"

fun hashable :: "json \<Rightarrow> bool" where
  "hashable (JArr xs) = False"
| "hashable (JObj kvs) = False"
| "hashable v = True"

fun key_eq :: "json \<Rightarrow> json \<Rightarrow> bool" where
  "key_eq JNull JNull = True"
| "key_eq (JStr s) (JStr t) = (s = t)"
| "key_eq a b =
     (case (as_number a, as_number b) of (Inr x, Inr y) \<Rightarrow> py_eq x y | _ \<Rightarrow> False)"

fun find_key :: "json \<Rightarrow> 'v pydict \<Rightarrow> nat option" where
  "find_key k [] = None"
| "find_key k (kv # kvs) =
     (if key_eq (fst kv) k then Some 0 else map_option Suc (find_key k kvs))"

fun pydict_find :: "'v pydict \<Rightarrow> json \<Rightarrow> 'v option" where
  "pydict_find [] k = None"
| "pydict_find (kv # kvs) k = (if key_eq (fst kv) k then Some (snd kv) else pydict_find kvs k)"

definition pydict_get :: "'v pydict \<Rightarrow> json \<Rightarrow> 'v \<Rightarrow> 'v" where
  "pydict_get d k dflt = (case pydict_find d k of Some v \<Rightarrow> v | None \<Rightarrow> dflt)"

text \<open>\<^verbatim>\<open>d[k] = v\<close>: an entry whose key equals \<open>k\<close> keeps its key and place.\<close>

fun pydict_set :: "'v pydict \<Rightarrow> json \<Rightarrow> 'v \<Rightarrow> 'v pydict" where
  "pydict_set [] k v = [(k, v)]"
| "pydict_set (kv # kvs) k v =
     (if key_eq (fst kv) k then (fst kv, v) # kvs else kv # pydict_set kvs k v)"

subsection \<open>The Aggregator: \<^verbatim>\<open>extract_provider_data\<close>\<close>

record metrics =
  total_tokens :: pynum
  prompt_tokens :: pynum
  completion_tokens :: pynum
  assertion_tokens :: pynum
  cost :: pynum
  test_count :: int
  total_latency_ms :: pynum

text \<open>The value the \<^verbatim>\<open>defaultdict\<close> creates for a key it does not hold yet.\<close>

definition default_metrics :: metrics where
  "default_metrics =
     \<lparr>total_tokens = PInt 0, prompt_tokens = PInt 0, completion_tokens = PInt 0,
      assertion_tokens = PInt 0, cost = PFloat (Fin 0), test_count = 0,
      total_latency_ms = PInt 0\<rparr>"

text \<open>
  \<^verbatim>\<open>provider_data[provider_id]\<close>: an unhashable key is a \<^verbatim>\<open>TypeError\<close>, a new key
  gets the default entry at the end. The result is the position of the entry, which the
  seven updates of one loop iteration all reach.
\<close>

definition defaultdict_entry :: "metrics pydict \<Rightarrow> json \<Rightarrow> py_error + nat \<times> metrics pydict" where
  "defaultdict_entry pd k =
     (if \<not> hashable k then Inl TypeError
      else Inr (case find_key k pd of
                  Some i \<Rightarrow> (i, pd)
                | None \<Rightarrow> (length pd, pd @ [(k, default_metrics)])))"

text \<open>One iteration of the loop over the result records (source lines 53 to 70).\<close>

definition aggregate_record :: "metrics pydict \<Rightarrow> json \<Rightarrow> py_error + metrics pydict" where
  "aggregate_record pd result =
     ebind (dict_get result ''provider'' (JObj [])) (\<lambda>provider.
     ebind (dict_get provider ''id'' (JStr ''unknown'')) (\<lambda>provider_id.
     ebind (dict_get result ''response'' (JObj [])) (\<lambda>response.
     ebind (dict_get response ''tokenUsage'' (JObj [])) (\<lambda>token_usage.
     ebind (dict_get result ''gradingResult'' (JObj [])) (\<lambda>grading_result.
     ebind (dict_get grading_result ''tokensUsed'' (JObj [])) (\<lambda>tokens_used.
     ebind (dict_get tokens_used ''total'' (JInt 0)) (\<lambda>assertion.
     ebind (defaultdict_entry pd provider_id) (\<lambda>(i, pd1).
     let d = snd (pd1 ! i) in
     ebind (dict_get token_usage ''total'' (JInt 0)) (\<lambda>v1.
     ebind (py_iadd (total_tokens d) v1) (\<lambda>t1.
     ebind (dict_get token_usage ''prompt'' (JInt 0)) (\<lambda>v2.
     ebind (py_iadd (prompt_tokens d) v2) (\<lambda>t2.
     ebind (dict_get token_usage ''completion'' (JInt 0)) (\<lambda>v3.
     ebind (py_iadd (completion_tokens d) v3) (\<lambda>t3.
     ebind (py_iadd (assertion_tokens d) assertion) (\<lambda>t4.
     ebind (dict_get response ''cost'' (JFloat (Fin 0))) (\<lambda>v5.
     ebind (py_iadd (cost d) v5) (\<lambda>t5.
     ebind (dict_get result ''latencyMs'' (JInt 0)) (\<lambda>v7.
     ebind (py_iadd (total_latency_ms d) v7) (\<lambda>t7.
     Inr (pd1[i := (fst (pd1 ! i),
            \<lparr>total_tokens = t1, prompt_tokens = t2, completion_tokens = t3,
             assertion_tokens = t4, cost = t5, test_count = test_count d + 1,
             total_latency_ms = t7\<rparr>)]))))))))))))))))))))"

fun aggregate :: "metrics pydict \<Rightarrow> json list \<Rightarrow> py_error + metrics pydict" where
  "aggregate pd [] = Inr pd"
| "aggregate pd (result # results) =
     ebind (aggregate_record pd result) (\<lambda>pd'. aggregate pd' results)"

text \<open>Source line 50: the record sequence of the document.\<close>

definition results_of :: "json \<Rightarrow> py_error + json list" where
  "results_of results_data =
     ebind (dict_get results_data ''results'' (JObj [])) (\<lambda>outer.
     ebind (dict_get outer ''results'' (JArr [])) (\<lambda>results.
     iterate results))"

definition extract_provider_data :: "json \<Rightarrow> py_error + metrics pydict" where
  "extract_provider_data results_data = ebind (results_of results_data) (aggregate [])"

subsection \<open>Display names: \<^verbatim>\<open>format_provider_name\<close>\<close>

text \<open>
  \<^verbatim>\<open>s.replace(old, new)\<close> replaces every occurrence of \<open>old\<close> in \<open>s\<close>, scanning from
  the left without overlap; an empty \<open>old\<close> matches before every character and at the end.
\<close>

fun str_replace :: "string \<Rightarrow> string \<Rightarrow> string \<Rightarrow> string" where
  "str_replace old new [] = (if old = [] then new else [])"
| "str_replace old new (c # cs) =
     (if old = [] then new @ c # str_replace old new cs
      else if take (length old) (c # cs) = old
        then new @ str_replace old new (drop (length old) (c # cs))
      else c # str_replace old new cs)"

definition format_provider_name :: "string \<Rightarrow> string" where
  "format_provider_name provider_id =
     str_replace ''openai:'' []
       (str_replace ''openai:chat:'' [] (str_replace ''anthropic:'' [] provider_id))"

text \<open>The call on a dict key: only a \<^verbatim>\<open>str\<close> has \<^verbatim>\<open>replace\<close>.\<close>

fun display_name :: "json \<Rightarrow> py_error + string" where
  "display_name (JStr s) = Inr (format_provider_name s)"
| "display_name k = Inl AttributeError"

subsection \<open>The Ranker: \<^verbatim>\<open>calculate_percentages\<close>\<close>

text \<open>\<^verbatim>\<open>max(items, key=...)\<close> keeps the first item that no later one exceeds.\<close>

fun max_by :: "('a \<Rightarrow> pynum) \<Rightarrow> 'a \<Rightarrow> 'a list \<Rightarrow> 'a" where
  "max_by key best [] = best"
| "max_by key best (x # xs) = max_by key (if py_lt (key best) (key x) then x else best) xs"

definition item_tokens :: "json \<times> metrics \<Rightarrow> pynum" where
  "item_tokens x = total_tokens (snd x)"

fun savings_loop :: "pynum \<Rightarrow> pynum pydict \<Rightarrow> metrics pydict \<Rightarrow> py_error + pynum pydict" where
  "savings_loop max_tokens percentages [] = Inr percentages"
| "savings_loop max_tokens percentages (item # items) =
     (let provider_id = fst item; tokens = total_tokens (snd item)
      in if py_eq tokens max_tokens
         then savings_loop max_tokens (pydict_set percentages provider_id (PFloat (Fin 0))) items
         else ebind (py_sub max_tokens tokens) (\<lambda>diff.
              ebind (py_truediv diff max_tokens) (\<lambda>ratio.
              ebind (py_mul ratio (PInt 100)) (\<lambda>savings.
              savings_loop max_tokens (pydict_set percentages provider_id savings) items))))"

definition calculate_percentages :: "metrics pydict \<Rightarrow> py_error + pynum pydict" where
  "calculate_percentages provider_data =
     (case provider_data of
        [] \<Rightarrow> Inr []
      | first # others \<Rightarrow>
          (let max_tokens_provider = max_by item_tokens first others;
               max_tokens = total_tokens (snd max_tokens_provider)
           in if py_eq max_tokens (PInt 0) then Inr []
              else savings_loop max_tokens [] provider_data))"

subsection \<open>Format specifications\<close>

function digits :: "int \<Rightarrow> string" where
  "digits n =
     (if n < 10 then [''0123456789'' ! nat n]
      else digits (n div 10) @ [''0123456789'' ! nat (n mod 10)])"
  by pat_completeness auto
termination
  by (relation "measure nat") auto

declare digits.simps [simp del]

definition str_int :: "int \<Rightarrow> string" where
  "str_int n = (if n < 0 then CHR ''-'' # digits (- n) else digits n)"

fun group3 :: "string \<Rightarrow> string" where
  "group3 ds =
     (if length ds \<le> 3 then ds
      else group3 (take (length ds - 3) ds) @ CHR '','' # drop (length ds - 3) ds)"

declare group3.simps [simp del]

text \<open>\<^verbatim>\<open>{n:,}\<close> on an int.\<close>

definition int_commas :: "int \<Rightarrow> string" where
  "int_commas n =
     (if n < 0 then CHR ''-'' # group3 (digits (- n)) else group3 (digits n))"

definition ljust :: "nat \<Rightarrow> string \<Rightarrow> string" where
  "ljust w s = s @ replicate (w - length s) CHR '' ''"

definition rjust :: "nat \<Rightarrow> string \<Rightarrow> string" where
  "rjust w s = replicate (w - length s) CHR '' '' @ s"

text \<open>\<^verbatim>\<open>{x:.df}\<close> on a float: the exact value rounded to \<open>d\<close> decimals, ties to even.\<close>

fun format_fixed :: "nat \<Rightarrow> pyfloat \<Rightarrow> string" where
  "format_fixed d (Fin q) =
     (let ds = digits (round_half_even (\<bar>q\<bar> * 10 ^ d));
          ds' = replicate (d + 1 - length ds) CHR ''0'' @ ds;
          k = length ds' - d
      in (if q < 0 then ''-'' else []) @ take k ds' @ (if d = 0 then [] else CHR ''.'' # drop k ds'))"
| "format_fixed d PInf = ''inf''"
| "format_fixed d NInf = ''-inf''"
| "format_fixed d NaN = ''nan''"

text \<open>On an int the format converts to float first.\<close>

definition fmt_fixed :: "nat \<Rightarrow> pynum \<Rightarrow> py_error + string" where
  "fmt_fixed d v = ebind (to_float v) (\<lambda>x. Inr (format_fixed d x))"

subsection \<open>The world outside the script\<close>

text \<open>
  What the script takes from the Python runtime and the file system: opening and reading
  a file, \<^verbatim>\<open>json.load\<close> (the text of a \<^verbatim>\<open>JSONDecodeError\<close>, or the document), and
  \<^verbatim>\<open>{x:,}\<close> on a float (the shortest digits that read back as \<open>x\<close>).
\<close>

datatype file_result = FileNotFound | ReadFails py_error | FileText string

record runtime =
  read_file :: "string \<Rightarrow> file_result"
  json_loads :: "string \<Rightarrow> string + json"
  float_commas :: "pyfloat \<Rightarrow> string"

fun fmt_commas :: "runtime \<Rightarrow> pynum \<Rightarrow> string" where
  "fmt_commas rt (PInt n) = int_commas n"
| "fmt_commas rt (PFloat x) = float_commas rt x"

subsection \<open>The Reporter: \<^verbatim>\<open>print_comparison_table\<close>\<close>

text \<open>
  \<^verbatim>\<open>sorted(items, key=..., reverse=True)\<close>: descending, items with equal keys in their
  original order. An insertion sort gives the list Python's sort gives whenever \<open><\<close>
  orders the keys (no NaN among them).
\<close>

fun insert_desc :: "json \<times> metrics \<Rightarrow> metrics pydict \<Rightarrow> metrics pydict" where
  "insert_desc x [] = [x]"
| "insert_desc x (y # ys) =
     (if py_lt (item_tokens y) (item_tokens x) then x # y # ys else y # insert_desc x ys)"

definition sorted_desc :: "metrics pydict \<Rightarrow> metrics pydict" where
  "sorted_desc items = foldl (\<lambda>acc x. insert_desc x acc) [] items"

text \<open>
  The output is the list of the strings printed, one per \<^verbatim>\<open>print\<close>. The script computes
  and prints line after line, so it is a list of lines each of which may raise; \<open>emit\<close>
  prints up to the first that does.
\<close>

fun emit :: "(py_error + string) list \<Rightarrow> string list \<times> py_error option" where
  "emit [] = ([], None)"
| "emit (Inl e # rest) = ([], Some e)"
| "emit (Inr s # rest) = (case emit rest of (out, e) \<Rightarrow> (s # out, e))"

definition hrule :: "char \<Rightarrow> string" where
  "hrule c = replicate 100 c"

text \<open>The marker of the top row; its arrow (U+2190) is written as its three UTF-8 bytes.\<close>

definition most_marker :: string where
  "most_marker = [CHR '' '', CHR 0xE2, CHR 0x86, CHR 0x90] @ '' (Most)''"

text \<open>The row format of source line 150.\<close>

definition row_text :: "string \<Rightarrow> string \<Rightarrow> string \<Rightarrow> string \<Rightarrow> string \<Rightarrow> string \<Rightarrow> string" where
  "row_text provider_name tokens_text cost_text savings_text tests_text indicator =
     ljust 50 provider_name @ '' '' @ rjust 14 tokens_text @ '' '' @ rjust 11 cost_text
     @ '' '' @ rjust 11 savings_text @ ''% '' @ rjust 7 tests_text @ indicator"

text \<open>Source lines 140 to 150: one row of the table.\<close>

definition table_row :: "runtime \<Rightarrow> json \<Rightarrow> pynum pydict \<Rightarrow> json \<times> metrics \<Rightarrow> py_error + string" where
  "table_row rt max_provider_id percentages item =
     (let provider_id = fst item; data = snd item in
      ebind (display_name provider_id) (\<lambda>provider_name.
      let savings = pydict_get percentages provider_id (PFloat (Fin 0));
          indicator = (if key_eq provider_id max_provider_id then most_marker else [])
      in ebind (fmt_fixed 6 (cost data)) (\<lambda>cost_text.
         ebind (fmt_fixed 2 savings) (\<lambda>savings_text.
         Inr (row_text provider_name (fmt_commas rt (total_tokens data)) cost_text savings_text
                (str_int (test_count data)) indicator)))))"

text \<open>Source lines 157 to 170: the breakdown of one provider.\<close>

definition breakdown :: "runtime \<Rightarrow> json \<times> metrics \<Rightarrow> (py_error + string) list" where
  "breakdown rt item =
     (let provider_id = fst item; data = snd item in
      [ebind (display_name provider_id) (\<lambda>provider_name. Inr (CHR 0x0A # provider_name @ '':'')),
       Inr (''  Prompt Tokens:        '' @ fmt_commas rt (prompt_tokens data)),
       Inr (''  Completion Tokens:    '' @ fmt_commas rt (completion_tokens data)),
       Inr (''  Assertion Tokens:     '' @ fmt_commas rt (assertion_tokens data)),
       Inr (''  Total Tokens:         '' @ fmt_commas rt (total_tokens data)),
       ebind (fmt_fixed 6 (cost data)) (\<lambda>t. Inr (''  Total Cost:          $'' @ t)),
       Inr (''  Number of Tests:      '' @ str_int (test_count data))]
      @ (if 0 < test_count data
         then [ebind (py_truediv (total_latency_ms data) (PInt (test_count data))) (\<lambda>avg_latency.
               ebind (fmt_fixed 0 avg_latency) (\<lambda>t. Inr (''  Avg Latency:          '' @ t @ '' ms''))),
               ebind (py_truediv (cost data) (PInt (test_count data))) (\<lambda>avg_cost_per_test.
               ebind (fmt_fixed 6 avg_cost_per_test) (\<lambda>t. Inr (''  Avg Cost per Test:    $'' @ t)))]
         else []))"

definition table_header :: string where
  "table_header =
     ljust 50 ''Provider'' @ '' '' @ ljust 15 ''Total Tokens'' @ '' '' @ ljust 12 ''Cost ($)''
     @ '' '' @ ljust 12 ''Savings %'' @ '' '' @ ljust 8 ''Tests''"

definition print_comparison_table ::
  "runtime \<Rightarrow> metrics pydict \<Rightarrow> pynum pydict \<Rightarrow> string list \<times> py_error option" where
  "print_comparison_table rt provider_data percentages =
     (case provider_data of
        [] \<Rightarrow> ([''No provider data found in results.''], None)
      | first # others \<Rightarrow>
          (let max_tokens_provider = max_by item_tokens first others;
               max_provider_id = fst max_tokens_provider;
               sorted_providers = sorted_desc provider_data
           in emit
             ([Inr (CHR 0x0A # hrule CHR ''=''),
               Inr ''TOKEN USAGE COMPARISON - PROMPTFOO RESULTS'',
               Inr (hrule CHR ''=''),
               ebind (display_name max_provider_id) (\<lambda>name.
                 Inr (CHR 0x0A # ''Most Token-Intensive Provider: '' @ name)),
               (case pydict_find provider_data max_provider_id of
                  None \<Rightarrow> Inl KeyError
                | Some data \<Rightarrow> Inr (''  Total Tokens: '' @ fmt_commas rt (total_tokens data))),
               Inr [],
               Inr table_header,
               Inr (hrule CHR ''-'')]
              @ map (table_row rt max_provider_id percentages) sorted_providers
              @ [Inr (hrule CHR ''-''),
                 Inr (CHR 0x0A # ''DETAILED BREAKDOWN:''),
                 Inr (hrule CHR ''-'')]
              @ concat (map (breakdown rt) sorted_providers)
              @ [Inr (CHR 0x0A # hrule CHR ''='')])))"

subsection \<open>The script: \<^verbatim>\<open>load_results\<close> and \<^verbatim>\<open>main\<close>\<close>

text \<open>
  A run ends by returning from \<^verbatim>\<open>main\<close>, by \<^verbatim>\<open>sys.exit(n)\<close>, or by an exception
  nobody catches; the interpreter turns these into the exit status 0, \<open>n\<close> and 1.
\<close>

datatype outcome = Returned | SysExit int | Uncaught py_error

fun exit_status :: "outcome \<Rightarrow> int" where
  "exit_status Returned = 0"
| "exit_status (SysExit n) = n"
| "exit_status (Uncaught e) = 1"

definition load_results :: "runtime \<Rightarrow> string \<Rightarrow> string list \<times> (outcome + json)" where
  "load_results rt filepath =
     (case read_file rt filepath of
        FileNotFound \<Rightarrow>
          ([''Error: File '' @ [CHR 0x27] @ filepath @ [CHR 0x27] @ '' not found.''],
           Inl (SysExit 1))
      | ReadFails e \<Rightarrow> ([], Inl (Uncaught e))
      | FileText text \<Rightarrow>
          (case json_loads rt text of
             Inl detail \<Rightarrow>
               ([''Error: Invalid JSON in '' @ [CHR 0x27] @ filepath @ [CHR 0x27] @ '': '' @ detail],
                Inl (SysExit 1))
           | Inr document \<Rightarrow> ([], Inr document)))"

text \<open>Source lines 178 to 181: the path from the command line, or the default.\<close>

definition input_path :: "string list \<Rightarrow> string" where
  "input_path argv = (if 1 < length argv then argv ! 1 else ''results.json'')"

definition main :: "runtime \<Rightarrow> string list \<Rightarrow> string list \<times> outcome" where
  "main rt argv =
     (let filepath = input_path argv;
          out0 = [''Loading results from: '' @ filepath]
      in case load_results rt filepath of
           (out1, Inl stop) \<Rightarrow> (out0 @ out1, stop)
         | (out1, Inr results_data) \<Rightarrow>
             (case extract_provider_data results_data of
                Inl e \<Rightarrow> (out0 @ out1, Uncaught e)
              | Inr provider_data \<Rightarrow>
                  if provider_data = []
                  then (out0 @ out1 @
                        [''No provider data found in results. Make sure the results file contains test results.''],
                        SysExit 1)
                  else (case calculate_percentages provider_data of
                          Inl e \<Rightarrow> (out0 @ out1, Uncaught e)
                        | Inr percentages \<Rightarrow>
                            (case print_comparison_table rt provider_data percentages of
                               (out2, None) \<Rightarrow> (out0 @ out1 @ out2, Returned)
                             | (out2, Some e) \<Rightarrow> (out0 @ out1 @ out2, Uncaught e)))))"

subsection \<open>Records as the results file documents them\<close>

text \<open>
  The documented shape of a result record is
  \<^verbatim>\<open>{provider: {id}, response: {tokenUsage: {total, prompt, completion}, cost},
  gradingResult: {tokensUsed: {total}}, latencyMs}\<close>, every field optional. \<open>field\<close>
  reads a field that may be absent; \<open>sub\<close> reads a sub-object, an absent one being empty.
\<close>

fun field :: "json \<Rightarrow> string \<Rightarrow> json option" where
  "field (JObj kvs) k = map_of kvs k"
| "field v k = None"

definition sub :: "json \<Rightarrow> string \<Rightarrow> json" where
  "sub v k = (case field v k of Some w \<Rightarrow> w | None \<Rightarrow> JObj [])"

fun is_obj :: "json \<Rightarrow> bool" where
  "is_obj (JObj kvs) = True"
| "is_obj v = False"

fun is_str :: "json \<Rightarrow> bool" where
  "is_str (JStr s) = True"
| "is_str v = False"

fun is_int :: "json \<Rightarrow> bool" where
  "is_int (JInt n) = True"
| "is_int v = False"

text \<open>A cost is a float, or an int that a float can hold.\<close>

fun is_cost :: "json \<Rightarrow> bool" where
  "is_cost (JFloat x) = True"
| "is_cost (JInt n) = (\<bar>round_double (of_int n)\<bar> < 2 ^ 1024)"
| "is_cost v = False"

definition absent_or :: "(json \<Rightarrow> bool) \<Rightarrow> json option \<Rightarrow> bool" where
  "absent_or P v = (case v of None \<Rightarrow> True | Some w \<Rightarrow> P w)"

definition shaped :: "json \<Rightarrow> bool" where
  "shaped r =
     (is_obj r
      \<and> is_obj (sub r ''provider'')
      \<and> absent_or is_str (field (sub r ''provider'') ''id'')
      \<and> is_obj (sub r ''response'')
      \<and> is_obj (sub (sub r ''response'') ''tokenUsage'')
      \<and> absent_or is_int (field (sub (sub r ''response'') ''tokenUsage'') ''total'')
      \<and> absent_or is_int (field (sub (sub r ''response'') ''tokenUsage'') ''prompt'')
      \<and> absent_or is_int (field (sub (sub r ''response'') ''tokenUsage'') ''completion'')
      \<and> absent_or is_cost (field (sub r ''response'') ''cost'')
      \<and> is_obj (sub r ''gradingResult'')
      \<and> is_obj (sub (sub r ''gradingResult'') ''tokensUsed'')
      \<and> absent_or is_int (field (sub (sub r ''gradingResult'') ''tokensUsed'') ''total'')
      \<and> absent_or is_int (field r ''latencyMs''))"

text \<open>What a record contributes, an absent field counting as its default.\<close>

definition int_or_0 :: "json option \<Rightarrow> int" where
  "int_or_0 v = (case v of Some (JInt n) \<Rightarrow> n | _ \<Rightarrow> 0)"

definition provider_id_of :: "json \<Rightarrow> string" where
  "provider_id_of r =
     (case field (sub r ''provider'') ''id'' of Some (JStr s) \<Rightarrow> s | _ \<Rightarrow> ''unknown'')"

definition total_of :: "json \<Rightarrow> int" where
  "total_of r = int_or_0 (field (sub (sub r ''response'') ''tokenUsage'') ''total'')"

definition prompt_of :: "json \<Rightarrow> int" where
  "prompt_of r = int_or_0 (field (sub (sub r ''response'') ''tokenUsage'') ''prompt'')"

definition completion_of :: "json \<Rightarrow> int" where
  "completion_of r = int_or_0 (field (sub (sub r ''response'') ''tokenUsage'') ''completion'')"

definition assertion_of :: "json \<Rightarrow> int" where
  "assertion_of r = int_or_0 (field (sub (sub r ''gradingResult'') ''tokensUsed'') ''total'')"

definition latency_of :: "json \<Rightarrow> int" where
  "latency_of r = int_or_0 (field r ''latencyMs'')"

definition cost_of :: "json \<Rightarrow> pyfloat" where
  "cost_of r =
     (case field (sub r ''response'') ''cost'' of
        Some (JFloat x) \<Rightarrow> x
      | Some (JInt n) \<Rightarrow> Fin (round_double (of_int n))
      | _ \<Rightarrow> Fin 0)"

text \<open>Metrics as the Aggregator builds them from such records: ints, and a float cost.\<close>

fun is_pint :: "pynum \<Rightarrow> bool" where
  "is_pint (PInt n) = True"
| "is_pint (PFloat x) = False"

fun int_of :: "pynum \<Rightarrow> int" where
  "int_of (PInt n) = n"
| "int_of (PFloat x) = 0"

fun float_of :: "pynum \<Rightarrow> pyfloat" where
  "float_of (PFloat x) = x"
| "float_of (PInt n) = Fin (of_int n)"

definition typed_metrics :: "metrics \<Rightarrow> bool" where
  "typed_metrics d =
     (is_pint (total_tokens d) \<and> is_pint (prompt_tokens d) \<and> is_pint (completion_tokens d)
      \<and> is_pint (assertion_tokens d) \<and> \<not> is_pint (cost d) \<and> is_pint (total_latency_ms d))"

definition typed_dict :: "metrics pydict \<Rightarrow> bool" where
  "typed_dict pd = list_all (\<lambda>kv. is_str (fst kv) \<and> typed_metrics (snd kv)) pd"

text \<open>One record added to the metrics of its provider, and to the dict.\<close>

definition add_record :: "json \<Rightarrow> metrics \<Rightarrow> metrics" where
  "add_record r d =
     \<lparr>total_tokens = PInt (int_of (total_tokens d) + total_of r),
      prompt_tokens = PInt (int_of (prompt_tokens d) + prompt_of r),
      completion_tokens = PInt (int_of (completion_tokens d) + completion_of r),
      assertion_tokens = PInt (int_of (assertion_tokens d) + assertion_of r),
      cost = PFloat (fadd (float_of (cost d)) (cost_of r)),
      test_count = test_count d + 1,
      total_latency_ms = PInt (int_of (total_latency_ms d) + latency_of r)\<rparr>"

fun upsert :: "json \<Rightarrow> (metrics \<Rightarrow> metrics) \<Rightarrow> metrics pydict \<Rightarrow> metrics pydict" where
  "upsert k f [] = [(k, f default_metrics)]"
| "upsert k f (kv # kvs) =
     (if key_eq (fst kv) k then (fst kv, f (snd kv)) # kvs else kv # upsert k f kvs)"

definition add_records :: "metrics \<Rightarrow> json list \<Rightarrow> metrics" where
  "add_records d rs = foldl (\<lambda>d r. add_record r d) d rs"

definition tally :: "metrics pydict \<Rightarrow> json list \<Rightarrow> metrics pydict" where
  "tally pd rs = foldl (\<lambda>pd r. upsert (JStr (provider_id_of r)) (add_record r) pd) pd rs"

text \<open>The integer-valued fields of an entry.\<close>

definition int_fields :: "metrics \<Rightarrow> pynum \<times> pynum \<times> pynum \<times> pynum \<times> int \<times> pynum" where
  "int_fields d =
     (total_tokens d, prompt_tokens d, completion_tokens d, assertion_tokens d, test_count d,
      total_latency_ms d)"

definition total_sum :: "metrics pydict \<Rightarrow> int" where
  "total_sum pd = sum_list (map (\<lambda>kv. int_of (total_tokens (snd kv))) pd)"

text \<open>The records of one provider, in the order of the sequence.\<close>

definition records_of :: "string \<Rightarrow> json list \<Rightarrow> json list" where
  "records_of p rs = filter (\<lambda>r. provider_id_of r = p) rs"

subsection \<open>Example documents\<close>

text \<open>A results file \<^verbatim>\<open>{results: {results: [...]}}\<close> around a record sequence.\<close>

definition results_document :: "json list \<Rightarrow> json" where
  "results_document rs = JObj [(''results'', JObj [(''results'', JArr rs)])]"

text \<open>The two records of the specification's scenario; the costs are the doubles
  \<^verbatim>\<open>0.01\<close> and \<^verbatim>\<open>0.005\<close>.\<close>

definition scenario_records :: "json list" where
  "scenario_records =
     [JObj [(''provider'', JObj [(''id'', JStr ''openai:chat:gpt-4'')]),
            (''response'',
             JObj [(''tokenUsage'',
                    JObj [(''total'', JInt 100), (''prompt'', JInt 60), (''completion'', JInt 40)]),
                   (''cost'', JFloat (Fin (5764607523034235 / 576460752303423488)))]),
            (''latencyMs'', JInt 500)],
      JObj [(''provider'', JObj [(''id'', JStr ''anthropic:claude'')]),
            (''response'',
             JObj [(''tokenUsage'',
                    JObj [(''total'', JInt 50), (''prompt'', JInt 30), (''completion'', JInt 20)]),
                   (''cost'', JFloat (Fin (5764607523034235 / 1152921504606846976)))]),
            (''latencyMs'', JInt 300)]]"

text \<open>A record that has a cost and nothing else.\<close>

definition cost_record :: "rat \<Rightarrow> json" where
  "cost_record c = JObj [(''response'', JObj [(''cost'', JFloat (Fin c))])]"

subsection \<open>Metrics as the data model has them\<close>

text \<open>Token totals are non-negative integers.\<close>

definition tokens_of :: "json \<times> metrics \<Rightarrow> int" where
  "tokens_of kv = int_of (total_tokens (snd kv))"

definition token_counts :: "metrics pydict \<Rightarrow> bool" where
  "token_counts pd =
     list_all (\<lambda>kv. case total_tokens (snd kv) of PInt n \<Rightarrow> 0 \<le> n | PFloat x \<Rightarrow> False) pd"

text \<open>The keys of a mapping are provider identifiers: strings, each once.\<close>

definition str_keyed :: "'v pydict \<Rightarrow> bool" where
  "str_keyed pd = (list_all (\<lambda>kv. is_str (fst kv)) pd \<and> distinct (map fst pd))"

text \<open>
  The savings of a provider with \<open>t\<close> tokens when the maximum is \<open>m\<close>:
  \<^verbatim>\<open>(max_tokens - tokens) / max_tokens * 100\<close> in doubles, the division of the two ints
  and the product each rounded once.
\<close>

definition savings_of :: "int \<Rightarrow> int \<Rightarrow> pynum" where
  "savings_of m t =
     (if t = m then PFloat (Fin 0)
      else PFloat (Fin (round_double (round_double (of_int (m - t) / of_int m) * 100))))"

definition savings_table :: "int \<Rightarrow> pynum pydict \<Rightarrow> metrics pydict \<Rightarrow> pynum pydict" where
  "savings_table m acc items =
     foldl (\<lambda>acc kv. pydict_set acc (fst kv) (savings_of m (tokens_of kv))) acc items"

text \<open>Example mappings: one test per provider, with the given token total.\<close>

definition with_tokens :: "int \<Rightarrow> metrics" where
  "with_tokens n = default_metrics\<lparr>total_tokens := PInt n, test_count := 1\<rparr>"

definition scenario_metrics :: "metrics pydict" where
  "scenario_metrics =
     [(JStr ''openai:chat:gpt-4'', with_tokens 100), (JStr ''anthropic:claude'', with_tokens 50)]"

definition idle_metrics :: "metrics pydict" where
  "idle_metrics =
     [(JStr ''openai:chat:gpt-4'', with_tokens 100), (JStr ''anthropic:claude'', with_tokens 0)]"

definition zero_metrics :: "metrics pydict" where
  "zero_metrics =
     [(JStr ''openai:chat:gpt-4'', with_tokens 0), (JStr ''anthropic:claude'', with_tokens 0)]"

subsection \<open>The ways a run ends\<close>

definition file_missing :: "runtime \<Rightarrow> string \<Rightarrow> bool" where
  "file_missing rt path = (read_file rt path = FileNotFound)"

definition invalid_json :: "runtime \<Rightarrow> string \<Rightarrow> bool" where
  "invalid_json rt path =
     (case read_file rt path of
        FileText text \<Rightarrow> (case json_loads rt text of Inl detail \<Rightarrow> True | Inr doc \<Rightarrow> False)
      | _ \<Rightarrow> False)"

definition no_provider_data :: "runtime \<Rightarrow> string \<Rightarrow> bool" where
  "no_provider_data rt path =
     (case read_file rt path of
        FileText text \<Rightarrow>
          (case json_loads rt text of
             Inl detail \<Rightarrow> False
           | Inr doc \<Rightarrow> extract_provider_data doc = Inr [])
      | _ \<Rightarrow> False)"

definition report_printed :: "runtime \<Rightarrow> string \<Rightarrow> bool" where
  "report_printed rt path =
     (case read_file rt path of
        FileText text \<Rightarrow>
          (case json_loads rt text of
             Inl detail \<Rightarrow> False
           | Inr doc \<Rightarrow>
               (case extract_provider_data doc of
                  Inl e \<Rightarrow> False
                | Inr pd \<Rightarrow>
                    pd \<noteq> [] \<and>
                    (case calculate_percentages pd of
                       Inl e \<Rightarrow> False
                     | Inr pct \<Rightarrow> snd (print_comparison_table rt pd pct) = None)))
      | _ \<Rightarrow> False)"

text \<open>Example worlds: every path holds the same text, which parses to the same document.\<close>

definition world_with :: "json \<Rightarrow> runtime" where
  "world_with doc =
     \<lparr>read_file = (\<lambda>path. FileText ''...''), json_loads = (\<lambda>text. Inr doc),
      float_commas = (\<lambda>x. ''...'')\<rparr>"

definition empty_world :: runtime where
  "empty_world =
     \<lparr>read_file = (\<lambda>path. FileNotFound), json_loads = (\<lambda>text. Inl ''Expecting value''),
      float_commas = (\<lambda>x. ''...'')\<rparr>"


section \<open>Properties\<close>

subsection \<open>Display names\<close>




text \<open>
  Claim C6 says that only a leading \<^verbatim>\<open>anthropic:\<close>, \<^verbatim>\<open>openai:chat:\<close> or
  \<^verbatim>\<open>openai:\<close> is stripped and that an identifier with another prefix comes back
  unchanged. The source comment says the same (\<^verbatim>\<open># Remove common prefixes\<close>), but
  \<^verbatim>\<open>str.replace\<close> removes the literals wherever they occur: the identifier
  \<^verbatim>\<open>azureopenai:chat:gpt-4\<close>, whose prefix \<^verbatim>\<open>azureopenai:\<close> is none of the three,
  loses the \<^verbatim>\<open>openai:chat:\<close> in its middle.
\<close>

theorem format_provider_name_strips_inside:
  "format_provider_name ''azureopenai:chat:gpt-4'' = ''azuregpt-4''"
  by (simp add: format_provider_name_def)




subsection \<open>The Aggregator on well-shaped records\<close>

lemma key_eq_JStr [simp]: "key_eq k (JStr s) = (k = JStr s)"
  by (cases k) (auto split: sum.splits)

lemma key_eq_JStr_left [simp]: "key_eq (JStr s) k = (k = JStr s)"
  by (cases k) (auto split: sum.splits)

lemma ebind_Inr [simp]: "ebind (Inr x) f = f x"
  by (simp add: ebind_def)

lemma ebind_Inl [simp]: "ebind (Inl e) f = Inl e"
  by (simp add: ebind_def)

lemma dict_get_obj:
  "is_obj v \<Longrightarrow> dict_get v k d = Inr (case field v k of Some w \<Rightarrow> w | None \<Rightarrow> d)"
  by (cases v) auto

lemma dict_get_sub: "is_obj v \<Longrightarrow> dict_get v k (JObj []) = Inr (sub v k)"
  by (simp add: dict_get_obj sub_def)

lemma dict_get_int:
  assumes "is_obj v" and "absent_or is_int (field v k)"
  shows "dict_get v k (JInt 0) = Inr (JInt (int_or_0 (field v k)))"
proof (cases "field v k")
  case None
  with assms show ?thesis by (simp add: dict_get_obj int_or_0_def)
next
  case (Some w)
  with assms show ?thesis by (cases w) (simp_all add: dict_get_obj int_or_0_def absent_or_def)
qed

lemma dict_get_id:
  assumes "is_obj (sub r ''provider'')" and "absent_or is_str (field (sub r ''provider'') ''id'')"
  shows "dict_get (sub r ''provider'') ''id'' (JStr ''unknown'') = Inr (JStr (provider_id_of r))"
proof (cases "field (sub r ''provider'') ''id''")
  case None
  with assms show ?thesis by (simp add: dict_get_obj provider_id_of_def)
next
  case (Some w)
  with assms show ?thesis
    by (cases w) (simp_all add: dict_get_obj provider_id_of_def absent_or_def)
qed

lemma py_iadd_int: "is_pint a \<Longrightarrow> py_iadd a (JInt n) = Inr (PInt (int_of a + n))"
  by (cases a) (simp_all add: py_iadd_def)

lemma py_iadd_cost:
  assumes "is_obj (sub r ''response'')" and "absent_or is_cost (field (sub r ''response'') ''cost'')"
    and "\<not> is_pint c"
  shows "ebind (dict_get (sub r ''response'') ''cost'' (JFloat (Fin 0))) (py_iadd c)
           = Inr (PFloat (fadd (float_of c) (cost_of r)))"
proof -
  obtain x where c: "c = PFloat x" using assms(3) by (cases c) auto
  show ?thesis
  proof (cases "field (sub r ''response'') ''cost''")
    case None
    with assms(1) c show ?thesis by (simp add: dict_get_obj cost_of_def py_iadd_def)
  next
    case (Some w)
    with assms(1,2) c show ?thesis
      by (cases w)
        (simp_all add: dict_get_obj cost_of_def absent_or_def py_iadd_def float_of_int_def Let_def)
  qed
qed

lemma upsert_found:
  "find_key k pd = Some i \<Longrightarrow> pd[i := (fst (pd ! i), f (snd (pd ! i)))] = upsert k f pd"
proof (induction pd arbitrary: i)
  case Nil
  then show ?case by simp
next
  case (Cons kv kvs)
  then show ?case by (cases "key_eq (fst kv) k") (auto split: option.splits)
qed

lemma upsert_missing:
  "find_key k pd = None \<Longrightarrow>
   upsert k f pd = pd @ [(k, f default_metrics)]"
  by (induction pd) (auto split: if_splits)

lemma find_key_typed:
  "find_key k pd = Some i \<Longrightarrow> typed_dict pd \<Longrightarrow> typed_metrics (snd (pd ! i))"
proof (induction pd arbitrary: i)
  case Nil
  then show ?case by simp
next
  case (Cons kv kvs)
  then show ?case by (cases "key_eq (fst kv) k") (auto simp: typed_dict_def split: option.splits)
qed

lemma typed_default: "typed_metrics default_metrics"
  by (simp add: typed_metrics_def default_metrics_def)

text \<open>The seven updates on the entry at hand.\<close>

lemma updates_typed:
  assumes "shaped r" and "typed_metrics d"
  shows
   "ebind (dict_get (sub (sub r ''response'') ''tokenUsage'') ''total'' (JInt 0)) (\<lambda>v1.
     ebind (py_iadd (total_tokens d) v1) (\<lambda>t1.
     ebind (dict_get (sub (sub r ''response'') ''tokenUsage'') ''prompt'' (JInt 0)) (\<lambda>v2.
     ebind (py_iadd (prompt_tokens d) v2) (\<lambda>t2.
     ebind (dict_get (sub (sub r ''response'') ''tokenUsage'') ''completion'' (JInt 0)) (\<lambda>v3.
     ebind (py_iadd (completion_tokens d) v3) (\<lambda>t3.
     ebind (py_iadd (assertion_tokens d) (JInt (assertion_of r))) (\<lambda>t4.
     ebind (dict_get (sub r ''response'') ''cost'' (JFloat (Fin 0))) (\<lambda>v5.
     ebind (py_iadd (cost d) v5) (\<lambda>t5.
     ebind (dict_get r ''latencyMs'' (JInt 0)) (\<lambda>v7.
     ebind (py_iadd (total_latency_ms d) v7) (\<lambda>t7.
     h t1 t2 t3 t4 t5 t7)))))))))))
    = h (PInt (int_of (total_tokens d) + total_of r))
        (PInt (int_of (prompt_tokens d) + prompt_of r))
        (PInt (int_of (completion_tokens d) + completion_of r))
        (PInt (int_of (assertion_tokens d) + assertion_of r))
        (PFloat (fadd (float_of (cost d)) (cost_of r)))
        (PInt (int_of (total_latency_ms d) + latency_of r))"
proof -
  have c: "ebind (dict_get (sub r ''response'') ''cost'' (JFloat (Fin 0)))
             (\<lambda>v5. ebind (py_iadd (cost d) v5) k)
        = k (PFloat (fadd (float_of (cost d)) (cost_of r)))" for k :: "pynum \<Rightarrow> py_error + 'a"
  proof -
    have "ebind (dict_get (sub r ''response'') ''cost'' (JFloat (Fin 0)))
             (\<lambda>v5. ebind (py_iadd (cost d) v5) k)
        = ebind (ebind (dict_get (sub r ''response'') ''cost'' (JFloat (Fin 0))) (py_iadd (cost d))) k"
      by (simp add: ebind_def split: sum.splits)
    also have "\<dots> = k (PFloat (fadd (float_of (cost d)) (cost_of r)))"
      using assms by (simp add: py_iadd_cost shaped_def typed_metrics_def)
    finally show ?thesis .
  qed
  show ?thesis
    using assms
    by (simp add: c shaped_def typed_metrics_def dict_get_int py_iadd_int
        total_of_def prompt_of_def completion_of_def latency_of_def)
qed

lemma aggregate_record_typed:
  assumes "shaped r" and "typed_dict pd"
  shows "aggregate_record pd r = Inr (upsert (JStr (provider_id_of r)) (add_record r) pd)"
proof -
  have a: "dict_get (sub (sub r ''gradingResult'') ''tokensUsed'') ''total'' (JInt 0)
             = Inr (JInt (assertion_of r))"
    using assms(1) by (simp add: shaped_def dict_get_int assertion_of_def)
  note facts = assms(1) [unfolded shaped_def]
  show ?thesis
  proof (cases "find_key (JStr (provider_id_of r)) pd")
    case None
    have "aggregate_record pd r =
      Inr ((pd @ [(JStr (provider_id_of r), default_metrics)])
             [length pd := (JStr (provider_id_of r), add_record r default_metrics)])"
      using facts
      by (simp add: aggregate_record_def dict_get_sub dict_get_id a defaultdict_entry_def None
          updates_typed [OF assms(1) typed_default] add_record_def)
    then show ?thesis by (simp add: upsert_missing [OF None])
  next
    case (Some i)
    have t: "typed_metrics (snd (pd ! i))" using Some assms(2) by (rule find_key_typed)
    have "aggregate_record pd r = Inr (pd[i := (fst (pd ! i), add_record r (snd (pd ! i)))])"
      using facts
      by (simp add: aggregate_record_def dict_get_sub dict_get_id a defaultdict_entry_def Some
          updates_typed [OF assms(1) t] add_record_def Let_def)
    then show ?thesis by (simp add: upsert_found [OF Some])
  qed
qed

lemma upsert_typed:
  "typed_dict pd \<Longrightarrow> (\<And>d. typed_metrics d \<Longrightarrow> typed_metrics (f d)) \<Longrightarrow>
   typed_dict (upsert (JStr s) f pd)"
  by (induction pd) (auto simp: typed_dict_def typed_default)

lemma add_record_typed: "typed_metrics (add_record r d)"
  by (simp add: typed_metrics_def add_record_def)


lemma tally_Nil [simp]: "tally pd [] = pd"
  by (simp add: tally_def)

lemma tally_Cons [simp]:
  "tally pd (r # rs) = tally (upsert (JStr (provider_id_of r)) (add_record r) pd) rs"
  by (simp add: tally_def)

lemma add_records_Nil [simp]: "add_records d [] = d"
  by (simp add: add_records_def)

lemma add_records_Cons [simp]: "add_records d (r # rs) = add_records (add_record r d) rs"
  by (simp add: add_records_def)

lemma aggregate_typed:
  "typed_dict pd \<Longrightarrow> list_all shaped rs \<Longrightarrow> aggregate pd rs = Inr (tally pd rs)"
proof (induction rs arbitrary: pd)
  case Nil
  then show ?case by simp
next
  case (Cons r rs)
  from Cons.prems have r: "shaped r" and rs: "list_all shaped rs" by simp_all
  have "typed_dict (upsert (JStr (provider_id_of r)) (add_record r) pd)"
    using Cons.prems(1) by (rule upsert_typed) (rule add_record_typed)
  then show ?case
    using Cons.IH rs by (simp add: aggregate_record_typed [OF r Cons.prems(1)])
qed

lemma extract_typed:
  assumes "results_of doc = Inr rs" and "list_all shaped rs"
  shows "extract_provider_data doc = Inr (tally [] rs)"
  using assms by (simp add: extract_provider_data_def aggregate_typed typed_dict_def)

lemma find_upsert:
  "pydict_find (upsert (JStr s) f pd) (JStr p) =
     (if p = s then Some (f (case pydict_find pd (JStr s) of None \<Rightarrow> default_metrics | Some d \<Rightarrow> d))
      else pydict_find pd (JStr p))"
  by (induction pd) auto

lemma find_tally:
  "pydict_find (tally pd rs) (JStr p) =
     (if records_of p rs = [] then pydict_find pd (JStr p)
      else Some (add_records (case pydict_find pd (JStr p) of None \<Rightarrow> default_metrics | Some d \<Rightarrow> d)
                   (records_of p rs)))"
proof (induction rs arbitrary: pd)
  case Nil
  then show ?case by (simp add: records_of_def)
next
  case (Cons r rs)
  show ?case
    by (simp add: Cons.IH find_upsert records_of_def)
qed

lemma keys_upsert: "fst ` set (upsert (JStr s) f pd) = insert (JStr s) (fst ` set pd)"
  by (induction pd) auto

lemma keys_tally: "fst ` set (tally pd rs) = fst ` set pd \<union> JStr ` provider_id_of ` set rs"
  by (induction rs arbitrary: pd) (auto simp: keys_upsert)

lemma int_fields_add_records:
  "int_fields (add_records (add_record r d) rs) =
     (PInt (int_of (total_tokens d) + sum_list (map total_of (r # rs))),
      PInt (int_of (prompt_tokens d) + sum_list (map prompt_of (r # rs))),
      PInt (int_of (completion_tokens d) + sum_list (map completion_of (r # rs))),
      PInt (int_of (assertion_tokens d) + sum_list (map assertion_of (r # rs))),
      test_count d + int (length (r # rs)),
      PInt (int_of (total_latency_ms d) + sum_list (map latency_of (r # rs))))"
proof (induction rs arbitrary: r d)
  case Nil
  then show ?case by (simp add: int_fields_def add_record_def)
next
  case (Cons r' rs)
  have "int_fields (add_records (add_record r d) (r' # rs))
          = int_fields (add_records (add_record r' (add_record r d)) rs)"
    by simp
  also note Cons.IH [of r' "add_record r d"]
  finally show ?case by (simp add: add_record_def)
qed

lemma int_fields_default:
  "rs \<noteq> [] \<Longrightarrow> int_fields (add_records default_metrics rs) =
     (PInt (sum_list (map total_of rs)), PInt (sum_list (map prompt_of rs)),
      PInt (sum_list (map completion_of rs)), PInt (sum_list (map assertion_of rs)),
      int (length rs), PInt (sum_list (map latency_of rs)))"
  by (cases rs) (simp_all add: int_fields_add_records default_metrics_def)

lemma find_tally_empty:
  "pydict_find (tally [] rs) (JStr p) =
     (if p \<in> provider_id_of ` set rs then Some (add_records default_metrics (records_of p rs)) else None)"
proof -
  have "records_of p rs = [] \<longleftrightarrow> p \<notin> provider_id_of ` set rs"
    by (auto simp: records_of_def filter_empty_conv)
  then show ?thesis by (simp add: find_tally)
qed

lemma total_sum_upsert:
  "total_sum (upsert (JStr s) (add_record r) pd) = total_sum pd + total_of r"
  by (induction pd) (auto simp: total_sum_def add_record_def default_metrics_def)

lemma total_sum_tally: "total_sum (tally pd rs) = total_sum pd + sum_list (map total_of rs)"
  by (induction rs arbitrary: pd) (simp_all add: total_sum_upsert)

lemma results_of_document: "results_of (results_document rs) = Inr rs"
  by (simp add: results_of_def results_document_def)

lemma shaped_scenario: "list_all shaped scenario_records"
  by (simp add: scenario_records_def shaped_def sub_def absent_or_def)

lemma records_of_nonempty: "p \<in> provider_id_of ` set rs \<Longrightarrow> records_of p rs \<noteq> []"
  by (auto simp: records_of_def filter_empty_conv)

text \<open>
  Claim C1. For a sequence of well-shaped records the Aggregator returns a mapping whose
  keys are the provider ids of the records (\<^verbatim>\<open>unknown\<close> for a record without one);
  the \<open>total_tokens\<close> of a provider is the sum of the \<^verbatim>\<open>tokenUsage.total\<close> values, 0
  when absent, of exactly the records of that provider; and the \<open>total_tokens\<close> of all
  providers add up to the sum over all records.
\<close>

theorem aggregated_total_tokens:
  assumes "results_of doc = Inr rs" and "list_all shaped rs"
  shows "\<exists>pd. extract_provider_data doc = Inr pd
           \<and> fst ` set pd = JStr ` provider_id_of ` set rs
           \<and> (\<forall>p \<in> provider_id_of ` set rs. \<exists>d. pydict_find pd (JStr p) = Some d
                  \<and> total_tokens d = PInt (sum_list (map total_of (records_of p rs))))
           \<and> sum_list (map (\<lambda>kv. int_of (total_tokens (snd kv))) pd) = sum_list (map total_of rs)"
proof -
  have e: "extract_provider_data doc = Inr (tally [] rs)"
    using assms by (rule extract_typed)
  have k: "fst ` set (tally [] rs) = JStr ` provider_id_of ` set rs"
    by (simp add: keys_tally)
  have f: "\<exists>d. pydict_find (tally [] rs) (JStr p) = Some d
             \<and> total_tokens d = PInt (sum_list (map total_of (records_of p rs)))"
    if "p \<in> provider_id_of ` set rs" for p
  proof -
    have "total_tokens (add_records default_metrics (records_of p rs))
            = PInt (sum_list (map total_of (records_of p rs)))"
      using int_fields_default [OF records_of_nonempty [OF that]] by (simp add: int_fields_def)
    with that show ?thesis by (simp add: find_tally_empty)
  qed
  have s: "sum_list (map (\<lambda>kv. int_of (total_tokens (snd kv))) (tally [] rs))
             = sum_list (map total_of rs)"
    using total_sum_tally [of "[]" rs] by (simp add: total_sum_def)
  from e k f s show ?thesis by blast
qed

theorem aggregated_total_tokens_witness:
  "results_of (results_document scenario_records) = Inr scenario_records
   \<and> list_all shaped scenario_records
   \<and> (\<exists>pd. extract_provider_data (results_document scenario_records) = Inr pd
           \<and> fst ` set pd = JStr ` provider_id_of ` set scenario_records
           \<and> (\<forall>p \<in> provider_id_of ` set scenario_records.
                 \<exists>d. pydict_find pd (JStr p) = Some d
                  \<and> total_tokens d = PInt (sum_list (map total_of (records_of p scenario_records))))
           \<and> sum_list (map (\<lambda>kv. int_of (total_tokens (snd kv))) pd)
               = sum_list (map total_of scenario_records))"
  using results_of_document [of scenario_records] shaped_scenario
    aggregated_total_tokens [OF results_of_document [of scenario_records] shaped_scenario]
  by simp

text \<open>
  Claim C9. The \<open>test_count\<close> of a provider is the number of records of that provider,
  whatever else those records hold; a provider no record names has no entry.
\<close>

theorem aggregated_test_count:
  assumes "results_of doc = Inr rs" and "list_all shaped rs"
  shows "\<exists>pd. extract_provider_data doc = Inr pd
           \<and> (\<forall>p \<in> provider_id_of ` set rs. \<exists>d. pydict_find pd (JStr p) = Some d
                  \<and> test_count d = int (length (records_of p rs)))
           \<and> (\<forall>p. p \<in> provider_id_of ` set rs \<or> pydict_find pd (JStr p) = None)"
proof -
  have e: "extract_provider_data doc = Inr (tally [] rs)"
    using assms by (rule extract_typed)
  have f: "\<exists>d. pydict_find (tally [] rs) (JStr p) = Some d
             \<and> test_count d = int (length (records_of p rs))"
    if "p \<in> provider_id_of ` set rs" for p
  proof -
    have "test_count (add_records default_metrics (records_of p rs))
            = int (length (records_of p rs))"
      using int_fields_default [OF records_of_nonempty [OF that]] by (simp add: int_fields_def)
    with that show ?thesis by (simp add: find_tally_empty)
  qed
  have n: "p \<in> provider_id_of ` set rs \<or> pydict_find (tally [] rs) (JStr p) = None" for p
    by (simp add: find_tally_empty)
  from e f n show ?thesis by blast
qed

theorem aggregated_test_count_witness:
  "results_of (results_document scenario_records) = Inr scenario_records
   \<and> list_all shaped scenario_records
   \<and> (\<exists>pd. extract_provider_data (results_document scenario_records) = Inr pd
           \<and> (\<forall>p \<in> provider_id_of ` set scenario_records.
                 \<exists>d. pydict_find pd (JStr p) = Some d
                  \<and> test_count d = int (length (records_of p scenario_records)))
           \<and> (\<forall>p. p \<in> provider_id_of ` set scenario_records \<or> pydict_find pd (JStr p) = None))"
  using results_of_document [of scenario_records] shaped_scenario
    aggregated_test_count [OF results_of_document [of scenario_records] shaped_scenario]
  by simp

text \<open>
  Claim C8. A record is well-shaped when each field it has is of the documented type, and
  any of them may be absent. On such records the Aggregator raises nothing: it returns
  the tally, in which every record is added to the entry of its provider, an absent id
  counting as \<^verbatim>\<open>unknown\<close>, an absent token count or latency as 0 and an absent cost as
  0.0.
\<close>

theorem absent_fields_default:
  assumes "results_of doc = Inr rs" and "list_all shaped rs"
  shows "extract_provider_data doc = Inr (tally [] rs)
         \<and> (\<forall>r \<in> set rs.
              (field (sub r ''provider'') ''id'' = None \<longrightarrow> provider_id_of r = ''unknown'')
            \<and> (field (sub (sub r ''response'') ''tokenUsage'') ''total'' = None
                 \<longrightarrow> total_of r = 0)
            \<and> (field (sub (sub r ''response'') ''tokenUsage'') ''prompt'' = None
                 \<longrightarrow> prompt_of r = 0)
            \<and> (field (sub (sub r ''response'') ''tokenUsage'') ''completion'' = None
                 \<longrightarrow> completion_of r = 0)
            \<and> (field (sub r ''response'') ''cost'' = None \<longrightarrow> cost_of r = Fin 0)
            \<and> (field (sub (sub r ''gradingResult'') ''tokensUsed'') ''total'' = None
                 \<longrightarrow> assertion_of r = 0)
            \<and> (field r ''latencyMs'' = None \<longrightarrow> latency_of r = 0))"
  using extract_typed [OF assms]
  by (simp add: provider_id_of_def total_of_def prompt_of_def completion_of_def cost_of_def
      assertion_of_def latency_of_def int_or_0_def)

lemma empty_record_views:
  "provider_id_of (JObj []) = ''unknown''" "total_of (JObj []) = 0"
  "prompt_of (JObj []) = 0" "completion_of (JObj []) = 0"
  "assertion_of (JObj []) = 0" "latency_of (JObj []) = 0"
  "cost_of (JObj []) = Fin 0" "shaped (JObj [])"
  by (simp_all add: provider_id_of_def total_of_def prompt_of_def
      completion_of_def assertion_of_def latency_of_def cost_of_def shaped_def sub_def
      absent_or_def int_or_0_def)

lemma fadd_zero: "fadd (Fin 0) (Fin 0) = Fin 0"
  by (simp add: float_of_rat_def round_double_def)

theorem absent_fields_default_witness:
  "results_of (results_document [JObj []]) = Inr [JObj []]
   \<and> list_all shaped [JObj []]
   \<and> extract_provider_data (results_document [JObj []])
       = Inr [(JStr ''unknown'',
               \<lparr>total_tokens = PInt 0, prompt_tokens = PInt 0, completion_tokens = PInt 0,
                assertion_tokens = PInt 0, cost = PFloat (Fin 0), test_count = 1,
                total_latency_ms = PInt 0\<rparr>)]"
proof -
  have s: "list_all shaped [JObj []]" by (simp add: empty_record_views)
  show ?thesis
    using results_of_document [of "[JObj []]"] s
      absent_fields_default [OF results_of_document [of "[JObj []]"] s]
    by (simp add: empty_record_views add_record_def default_metrics_def fadd_zero
        del: fadd.simps)
qed

subsection \<open>The order of the records\<close>

lemma cost_record_views:
  "provider_id_of (cost_record c) = ''unknown''" "total_of (cost_record c) = 0"
  "prompt_of (cost_record c) = 0" "completion_of (cost_record c) = 0"
  "assertion_of (cost_record c) = 0" "latency_of (cost_record c) = 0"
  "cost_of (cost_record c) = Fin c" "shaped (cost_record c)"
  by (simp_all add: cost_record_def provider_id_of_def total_of_def prompt_of_def
      completion_of_def assertion_of_def latency_of_def cost_of_def shaped_def sub_def
      absent_or_def int_or_0_def)

text \<open>The doubles \<^verbatim>\<open>0.1\<close>, \<^verbatim>\<open>0.2\<close> and \<^verbatim>\<open>0.3\<close>, added in one order and in the other.\<close>

lemma round_double_sums:
  "round_double (0 + 3602879701896397 / 36028797018963968) = 3602879701896397 / 36028797018963968"
  "round_double (3602879701896397 / 36028797018963968 + 3602879701896397 / 18014398509481984)
     = 1351079888211149 / 4503599627370496"
  "round_double (1351079888211149 / 4503599627370496 + 5404319552844595 / 18014398509481984)
     = 1351079888211149 / 2251799813685248"
  "round_double (0 + 5404319552844595 / 18014398509481984) = 5404319552844595 / 18014398509481984"
  "round_double (5404319552844595 / 18014398509481984 + 3602879701896397 / 18014398509481984) = 1 / 2"
  "round_double (1 / 2 + 3602879701896397 / 36028797018963968) = 5404319552844595 / 9007199254740992"
  by code_simp+

lemma fadd_sums:
  "fadd (Fin 0) (Fin (3602879701896397 / 36028797018963968)) = Fin (3602879701896397 / 36028797018963968)"
  "fadd (Fin (3602879701896397 / 36028797018963968)) (Fin (3602879701896397 / 18014398509481984))
     = Fin (1351079888211149 / 4503599627370496)"
  "fadd (Fin (1351079888211149 / 4503599627370496)) (Fin (5404319552844595 / 18014398509481984))
     = Fin (1351079888211149 / 2251799813685248)"
  "fadd (Fin 0) (Fin (5404319552844595 / 18014398509481984)) = Fin (5404319552844595 / 18014398509481984)"
  "fadd (Fin (5404319552844595 / 18014398509481984)) (Fin (3602879701896397 / 18014398509481984)) = Fin (1 / 2)"
  "fadd (Fin (1 / 2)) (Fin (3602879701896397 / 36028797018963968)) = Fin (5404319552844595 / 9007199254740992)"
  unfolding fadd.simps float_of_rat_def round_double_sums by simp_all

text \<open>
  Claim C10 as stated, equal mappings for every permutation including the cost, fails:
  the cost is a float sum in record order, and float addition is not associative. Three
  records of one provider with the costs \<^verbatim>\<open>0.1\<close>, \<^verbatim>\<open>0.2\<close>, \<^verbatim>\<open>0.3\<close> give the cost
  \<^verbatim>\<open>0.6000000000000001\<close>, and in the reverse order \<^verbatim>\<open>0.6\<close>.
\<close>

theorem aggregated_cost_depends_on_order:
  "extract_provider_data
     (results_document
        [cost_record (3602879701896397 / 36028797018963968),
         cost_record (3602879701896397 / 18014398509481984),
         cost_record (5404319552844595 / 18014398509481984)])
   = Inr [(JStr ''unknown'',
           \<lparr>total_tokens = PInt 0, prompt_tokens = PInt 0, completion_tokens = PInt 0,
            assertion_tokens = PInt 0, cost = PFloat (Fin (1351079888211149 / 2251799813685248)),
            test_count = 3, total_latency_ms = PInt 0\<rparr>)]
   \<and> extract_provider_data
     (results_document
        [cost_record (5404319552844595 / 18014398509481984),
         cost_record (3602879701896397 / 18014398509481984),
         cost_record (3602879701896397 / 36028797018963968)])
   = Inr [(JStr ''unknown'',
           \<lparr>total_tokens = PInt 0, prompt_tokens = PInt 0, completion_tokens = PInt 0,
            assertion_tokens = PInt 0, cost = PFloat (Fin (5404319552844595 / 9007199254740992)),
            test_count = 3, total_latency_ms = PInt 0\<rparr>)]"
  by (simp add: extract_typed [OF results_of_document] cost_record_views add_record_def
      default_metrics_def fadd_sums del: fadd.simps)

lemma sum_list_map_mset:
  assumes "mset xs = mset ys"
  shows "sum_list (map f xs) = (sum_list (map f ys) :: int)"
proof -
  have "mset (map f xs) = mset (map f ys)" using assms by simp
  then have "sum_mset (mset (map f xs)) = sum_mset (mset (map f ys))" by (rule arg_cong)
  then show ?thesis by (simp only: sum_mset_sum_list)
qed

lemma int_fields_perm:
  assumes "mset xs = mset ys"
  shows "int_fields (add_records default_metrics xs) = int_fields (add_records default_metrics ys)"
proof (cases "xs = []")
  case True
  with assms show ?thesis by simp
next
  case False
  with assms have "ys \<noteq> []" by auto
  moreover have "length xs = length ys" using assms by (rule mset_eq_length)
  ultimately show ?thesis
    using False by (simp add: int_fields_default sum_list_map_mset [OF assms])
qed

text \<open>
  Claim C10 as amended: for well-shaped records, a permutation of the sequence gives the
  same set of provider keys and, for each provider, the same \<open>total_tokens\<close>,
  \<open>prompt_tokens\<close>, \<open>completion_tokens\<close>, \<open>assertion_tokens\<close>, \<open>test_count\<close> and
  \<open>total_latency_ms\<close>.
\<close>

theorem aggregation_order_insensitive:
  assumes "results_of doc = Inr rs" and "results_of doc' = Inr rs'"
    and "mset rs' = mset rs" and "list_all shaped rs"
  shows "\<exists>pd pd'. extract_provider_data doc = Inr pd \<and> extract_provider_data doc' = Inr pd'
           \<and> fst ` set pd' = fst ` set pd
           \<and> (\<forall>p. map_option int_fields (pydict_find pd' (JStr p))
                    = map_option int_fields (pydict_find pd (JStr p)))"
proof -
  have s: "set rs' = set rs" using assms(3) by (rule mset_eq_setD)
  with assms(4) have sh: "list_all shaped rs'" by (simp add: list_all_iff)
  have e: "extract_provider_data doc = Inr (tally [] rs)"
    using assms(1,4) by (rule extract_typed)
  have e': "extract_provider_data doc' = Inr (tally [] rs')"
    using assms(2) sh by (rule extract_typed)
  have k: "fst ` set (tally [] rs') = fst ` set (tally [] rs)"
    by (simp add: keys_tally s)
  have f: "map_option int_fields (pydict_find (tally [] rs') (JStr p))
             = map_option int_fields (pydict_find (tally [] rs) (JStr p))" for p
  proof -
    have "mset (records_of p rs') = mset (records_of p rs)"
      using assms(3) by (simp add: records_of_def)
    then have "int_fields (add_records default_metrics (records_of p rs'))
                 = int_fields (add_records default_metrics (records_of p rs))"
      by (rule int_fields_perm)
    then show ?thesis by (simp add: find_tally_empty s)
  qed
  from e e' k f show ?thesis by blast
qed

theorem aggregation_order_insensitive_witness:
  "results_of (results_document scenario_records) = Inr scenario_records
   \<and> results_of (results_document (rev scenario_records)) = Inr (rev scenario_records)
   \<and> mset (rev scenario_records) = mset scenario_records
   \<and> list_all shaped scenario_records
   \<and> (\<exists>pd pd'. extract_provider_data (results_document scenario_records) = Inr pd
           \<and> extract_provider_data (results_document (rev scenario_records)) = Inr pd'
           \<and> fst ` set pd' = fst ` set pd
           \<and> (\<forall>p. map_option int_fields (pydict_find pd' (JStr p))
                    = map_option int_fields (pydict_find pd (JStr p))))"
proof -
  have m: "mset (rev scenario_records) = mset scenario_records" by simp
  show ?thesis
    using results_of_document [of scenario_records] results_of_document [of "rev scenario_records"]
      m shaped_scenario
      aggregation_order_insensitive [OF results_of_document [of scenario_records]
              results_of_document [of "rev scenario_records"] m shaped_scenario]
    by simp
qed

subsection \<open>Rounding to a double\<close>

lemma ilog2_lower:
  assumes "0 < q"
  shows "2 powi (ilog2 q) \<le> q"
proof (cases "1 \<le> q")
  case True
  let ?x = "\<lfloor>q\<rfloor>"
  have x: "0 < ?x" using True by simp
  then have b: "1 \<le> bitlen ?x" by (simp add: bitlen_alt_def)
  have "2 ^ nat (bitlen ?x - 1) \<le> ?x" using bitlen_bounds [OF x] by simp
  then have "rat_of_int (2 ^ nat (bitlen ?x - 1)) \<le> of_int ?x" by (simp only: of_int_le_iff)
  then have "(2::rat) ^ nat (bitlen ?x - 1) \<le> of_int ?x" by simp
  also have "\<dots> \<le> q" by simp
  finally show ?thesis using True assms b by (simp add: ilog2_def power_int_nonneg_exp)
next
  case False
  let ?n = "\<lceil>1 / q\<rceil>"
  let ?x = "?n - 1"
  have "1 < 1 / q" using assms False by simp
  then have "1 < ?n" by (simp add: less_ceiling_iff)
  then have x: "0 < ?x" by simp
  have "?x < 2 ^ nat (bitlen ?x)" using bitlen_bounds [OF x] by simp
  then have "?n \<le> 2 ^ nat (bitlen ?x)" by simp
  then have "rat_of_int ?n \<le> of_int (2 ^ nat (bitlen ?x))" by (simp only: of_int_le_iff)
  then have "rat_of_int ?n \<le> 2 ^ nat (bitlen ?x)" by simp
  moreover have "1 / q \<le> of_int ?n" by simp
  ultimately have "1 / q \<le> 2 ^ nat (bitlen ?x)" by (rule order_trans [rotated])
  then have "1 \<le> 2 ^ nat (bitlen ?x) * q" using assms by (simp add: field_simps)
  then have "1 / 2 ^ nat (bitlen ?x) \<le> q" by (simp add: field_simps)
  moreover have "(2::rat) powi (- bitlen ?x) = 1 / 2 ^ nat (bitlen ?x)"
    by (simp add: power_int_minus_divide power_int_nonneg_exp bitlen_nonneg)
  ultimately show ?thesis using False assms by (simp add: ilog2_def)
qed

text \<open>\<open>ilog2 q\<close> is the exponent of the binade of \<open>q\<close>.\<close>

lemma ilog2_upper:
  assumes "0 < q"
  shows "q < 2 powi (ilog2 q + 1)"
proof (cases "1 \<le> q")
  case True
  let ?x = "\<lfloor>q\<rfloor>"
  have x: "0 < ?x" using True by simp
  have "?x < 2 ^ nat (bitlen ?x)" using bitlen_bounds [OF x] by simp
  then have "?x + 1 \<le> 2 ^ nat (bitlen ?x)" by simp
  then have "rat_of_int (?x + 1) \<le> of_int (2 ^ nat (bitlen ?x))" by (simp only: of_int_le_iff)
  then have "rat_of_int ?x + 1 \<le> 2 ^ nat (bitlen ?x)" by simp
  moreover have "q < rat_of_int ?x + 1" by linarith
  ultimately have "q < 2 ^ nat (bitlen ?x)" by simp
  then show ?thesis
    using True assms by (simp add: ilog2_def power_int_nonneg_exp bitlen_nonneg)
next
  case False
  let ?n = "\<lceil>1 / q\<rceil>"
  let ?x = "?n - 1"
  have "1 < 1 / q" using assms False by simp
  then have "1 < ?n" by (simp add: less_ceiling_iff)
  then have x: "0 < ?x" by simp
  then have b: "1 \<le> bitlen ?x" by (simp add: bitlen_alt_def)
  have "2 ^ nat (bitlen ?x - 1) \<le> ?x" using bitlen_bounds [OF x] by simp
  then have "rat_of_int (2 ^ nat (bitlen ?x - 1)) \<le> of_int ?x" by (simp only: of_int_le_iff)
  then have "(2::rat) ^ nat (bitlen ?x - 1) \<le> of_int ?n - 1" by simp
  moreover have "rat_of_int ?n - 1 < 1 / q" by linarith
  ultimately have "(2::rat) ^ nat (bitlen ?x - 1) < 1 / q" by simp
  then have "q * 2 ^ nat (bitlen ?x - 1) < 1" using assms by (simp add: field_simps)
  then have "q < 1 / 2 ^ nat (bitlen ?x - 1)" by (simp add: field_simps)
  moreover have "(2::rat) powi (- bitlen ?x + 1) = 1 / 2 ^ nat (bitlen ?x - 1)"
    using b power_int_minus_divide [of "2::rat" "bitlen ?x - 1"]
    by (simp add: power_int_nonneg_exp)
  ultimately show ?thesis using False assms by (simp add: ilog2_def)
qed

lemma ilog2_less:
  assumes "0 < q" and "q < 2 powi n"
  shows "ilog2 q < n"
proof (rule ccontr)
  assume "\<not> ilog2 q < n"
  then have "n \<le> ilog2 q" by simp
  then have "(2::rat) powi n \<le> 2 powi (ilog2 q)" by (rule power_int_increasing) simp
  also have "\<dots> \<le> q" using assms(1) by (rule ilog2_lower)
  finally show False using assms(2) by simp
qed

lemma round_half_even_le: "x \<le> of_int n \<Longrightarrow> round_half_even x \<le> n"
  unfolding round_half_even_def Let_def
  by (auto simp: floor_le_iff)

lemma round_half_even_ge:
  assumes "of_int n \<le> x"
  shows "n \<le> round_half_even x"
proof -
  have "n \<le> \<lfloor>x\<rfloor>" using assms by (simp add: le_floor_iff)
  then show ?thesis unfolding round_half_even_def Let_def by auto
qed


lemma round_double_le:
  assumes "0 < q" and "q \<le> of_int m * 2 powi k" and "max (ilog2 q - 52) (- 1074) \<le> k"
  shows "round_double q \<le> of_int m * 2 powi k"
proof -
  define e where "e = max (ilog2 q - 52) (- 1074)"
  have ek: "e \<le> k" using assms(3) by (simp add: e_def)
  have p: "(0::rat) < 2 powi e" by simp
  have d: "(2::rat) powi k = 2 powi e * 2 ^ nat (k - e)"
    using ek power_int_add [of "2::rat" e "k - e"] by (simp add: power_int_nonneg_exp)
  have "q / 2 powi e \<le> of_int m * 2 powi k / 2 powi e"
    using assms(2) p by (simp add: divide_right_mono)
  also have "\<dots> = of_int (m * 2 ^ nat (k - e))" using p by (simp add: d)
  finally have "round_half_even (q / 2 powi e) \<le> m * 2 ^ nat (k - e)"
    by (rule round_half_even_le)
  then have "rat_of_int (round_half_even (q / 2 powi e)) \<le> of_int (m * 2 ^ nat (k - e))"
    by (simp only: of_int_le_iff)
  then have "of_int (round_half_even (q / 2 powi e)) * 2 powi e
               \<le> rat_of_int (m * 2 ^ nat (k - e)) * 2 powi e"
    using p by (simp only: mult_le_cancel_right_pos)
  also have "\<dots> = of_int m * 2 powi k" by (simp add: d)
  finally show ?thesis using assms(1) by (simp add: round_double_def e_def Let_def)
qed

lemma round_double_ge:
  assumes "0 < q" and "of_int m * 2 powi max (ilog2 q - 52) (- 1074) \<le> q"
  shows "of_int m * 2 powi max (ilog2 q - 52) (- 1074) \<le> round_double q"
proof -
  define e where "e = max (ilog2 q - 52) (- 1074)"
  have p: "(0::rat) < 2 powi e" by simp
  have "of_int m \<le> q / 2 powi e"
    using assms(2) p by (simp add: e_def pos_le_divide_eq)
  then have "m \<le> round_half_even (q / 2 powi e)" by (rule round_half_even_ge)
  then have "rat_of_int m \<le> of_int (round_half_even (q / 2 powi e))"
    by (simp only: of_int_le_iff)
  then have "rat_of_int m * 2 powi e \<le> of_int (round_half_even (q / 2 powi e)) * 2 powi e"
    using p by (simp only: mult_le_cancel_right_pos)
  then show ?thesis using assms(1) by (simp add: round_double_def e_def Let_def)
qed

lemma round_double_nonneg: "0 \<le> q \<Longrightarrow> 0 \<le> round_double q"
proof (cases "q = 0")
  case True
  then show ?thesis by (simp add: round_double_def)
next
  case False
  assume "0 \<le> q"
  with False have q: "0 < q" by simp
  have "0 * 2 powi max (ilog2 q - 52) (- 1074) \<le> round_double q"
    using round_double_ge [OF q, of 0] q by simp
  then show ?thesis by simp
qed

lemma round_double_le_1:
  assumes "0 \<le> q" and "q \<le> 1"
  shows "round_double q \<le> 1"
proof (cases "q = 0")
  case True
  then show ?thesis by (simp add: round_double_def)
next
  case False
  with assms have q: "0 < q" by simp
  have "ilog2 q < 1" using q assms(2) by (intro ilog2_less) simp_all
  then have "max (ilog2 q - 52) (- 1074) \<le> 0" by simp
  with round_double_le [OF q, of 1 0] assms(2) show ?thesis by simp
qed

lemma round_double_le_100:
  assumes "0 \<le> q" and "q \<le> 100"
  shows "round_double q \<le> 100"
proof (cases "q = 0")
  case True
  then show ?thesis by (simp add: round_double_def)
next
  case False
  with assms have q: "0 < q" by simp
  have "ilog2 q < 7" using q assms(2) by (intro ilog2_less) simp_all
  then have "max (ilog2 q - 52) (- 1074) \<le> 2" by simp
  with round_double_le [OF q, of 25 2] assms(2) show ?thesis by simp
qed

lemma round_double_tiny:
  assumes "2 powi (- 1074) \<le> q"
  shows "2 powi (- 1074) \<le> round_double q"
proof -
  have "(0::rat) < 2 powi (- 1074)" by (rule zero_less_power_int) simp
  with assms have q: "0 < q" by simp
  define e where "e = max (ilog2 q - 52) (- 1074)"
  have "(2::rat) powi e \<le> q"
  proof (cases "ilog2 q - 52 \<le> - 1074")
    case True
    then show ?thesis using assms by (simp add: e_def max_def)
  next
    case False
    then have "e = ilog2 q - 52" by (simp add: e_def max_def)
    then have "(2::rat) powi e \<le> 2 powi (ilog2 q)" by (intro power_int_increasing) simp_all
    also have "\<dots> \<le> q" using q by (rule ilog2_lower)
    finally show ?thesis .
  qed
  then have "of_int 1 * 2 powi max (ilog2 q - 52) (- 1074) \<le> q" by (simp add: e_def)
  then have "of_int 1 * 2 powi max (ilog2 q - 52) (- 1074) \<le> round_double q"
    by (rule round_double_ge [OF q])
  then have "(2::rat) powi e \<le> round_double q" by (simp add: e_def)
  moreover have "(2::rat) powi (- 1074) \<le> 2 powi e"
    by (intro power_int_increasing) (simp_all add: e_def)
  ultimately show ?thesis by (rule order_trans [rotated])
qed

lemma round_double_1: "round_double 1 = 1"
  by code_simp

lemma round_double_100: "round_double 100 = 100"
  by code_simp

subsection \<open>The Ranker on token counts\<close>

lemma py_lt_int [simp]: "py_lt (PInt a) (PInt b) = (a < b)"
  by (simp add: py_lt_def)

lemma py_eq_int [simp]: "py_eq (PInt a) (PInt b) = (a = b)"
  by (simp add: py_eq_def feq_def)

lemma token_counts_item:
  assumes "token_counts pd" and "kv \<in> set pd"
  shows "total_tokens (snd kv) = PInt (tokens_of kv) \<and> 0 \<le> tokens_of kv"
proof -
  from assms have "case total_tokens (snd kv) of PInt n \<Rightarrow> 0 \<le> n | PFloat x \<Rightarrow> False"
    by (simp add: token_counts_def list_all_iff)
  then show ?thesis by (cases "total_tokens (snd kv)") (simp_all add: tokens_of_def)
qed

lemma max_by_in: "max_by key best xs \<in> set (best # xs)"
  by (induction xs arbitrary: best) auto

lemma max_by_tokens:
  "token_counts (best # xs) \<Longrightarrow>
   tokens_of (max_by item_tokens best xs) = Max (tokens_of ` set (best # xs))"
proof (induction xs arbitrary: best)
  case Nil
  then show ?case by simp
next
  case (Cons x xs)
  from Cons.prems have b: "total_tokens (snd best) = PInt (tokens_of best)"
    and x: "total_tokens (snd x) = PInt (tokens_of x)"
    by (simp_all add: token_counts_item)
  let ?b = "if py_lt (item_tokens best) (item_tokens x) then x else best"
  have tc: "token_counts (?b # xs)" using Cons.prems by (simp add: token_counts_def)
  have t: "tokens_of ?b = max (tokens_of best) (tokens_of x)"
    by (simp add: item_tokens_def b x max_def)
  have "tokens_of (max_by item_tokens best (x # xs)) = Max (tokens_of ` set (?b # xs))"
    using Cons.IH [OF tc] by simp
  also have "\<dots> = Max (insert (max (tokens_of best) (tokens_of x)) (tokens_of ` set xs))"
    by (simp add: t)
  also have "\<dots> = Max (tokens_of ` set (best # x # xs))"
  proof (cases "xs = []")
    case True
    then show ?thesis by (simp add: max.commute)
  next
    case False
    then show ?thesis by (simp add: max.assoc)
  qed
  finally show ?case .
qed

lemma savings_step:
  assumes "0 \<le> t" and "t \<le> m" and "t \<noteq> m"
  shows "ebind (py_sub (PInt m) (PInt t)) (\<lambda>diff.
           ebind (py_truediv diff (PInt m)) (\<lambda>ratio.
           ebind (py_mul ratio (PInt 100)) k)) = k (savings_of m t)"
proof -
  let ?q = "(rat_of_int m - rat_of_int t) / rat_of_int m"
  have m: "0 < m" using assms by simp
  have q: "0 \<le> ?q" "?q \<le> 1" using assms m by simp_all
  have r: "0 \<le> round_double ?q" "round_double ?q \<le> 1"
    using q by (simp_all add: round_double_nonneg round_double_le_1)
  have d: "int_truediv (m - t) m = Inr (Fin (round_double ?q))"
    using m r by (simp add: int_truediv_def Let_def)
  have s: "0 \<le> round_double (round_double ?q * 100)" "round_double (round_double ?q * 100) \<le> 100"
    using r by (simp_all add: round_double_nonneg round_double_le_100)
  have f: "fmul (Fin (round_double ?q)) (Fin 100) = Fin (round_double (round_double ?q * 100))"
    using s by (simp add: fmul_def float_of_rat_def Let_def)
  have c: "float_of_int 100 = Inr (Fin 100)"
    by (simp add: float_of_int_def round_double_100)
  show ?thesis using assms(3) by (simp add: d c f savings_of_def)
qed

lemma savings_loop_typed:
  assumes "token_counts items" and "\<forall>kv \<in> set items. tokens_of kv \<le> m"
  shows "savings_loop (PInt m) acc items = Inr (savings_table m acc items)"
  using assms
proof (induction items arbitrary: acc)
  case Nil
  then show ?case by (simp add: savings_table_def)
next
  case (Cons kv items)
  from Cons.prems have t: "total_tokens (snd kv) = PInt (tokens_of kv)" "0 \<le> tokens_of kv"
    "tokens_of kv \<le> m" and tc: "token_counts items" and le: "\<forall>kv \<in> set items. tokens_of kv \<le> m"
    by (simp_all add: token_counts_item) (simp add: token_counts_def)
  have rest: "savings_loop (PInt m) acc' items = Inr (savings_table m acc' items)" for acc'
    using tc le by (rule Cons.IH)
  show ?case
  proof (cases "tokens_of kv = m")
    case True
    then show ?thesis by (simp add: t rest savings_table_def savings_of_def Let_def)
  next
    case False
    have "savings_loop (PInt m) acc (kv # items)
            = ebind (py_sub (PInt m) (PInt (tokens_of kv))) (\<lambda>diff.
              ebind (py_truediv diff (PInt m)) (\<lambda>ratio.
              ebind (py_mul ratio (PInt 100)) (\<lambda>savings.
              savings_loop (PInt m) (pydict_set acc (fst kv) savings) items)))"
      using False by (simp add: t Let_def)
    also have "\<dots> = savings_loop (PInt m) (pydict_set acc (fst kv) (savings_of m (tokens_of kv))) items"
      using t(2,3) False by (rule savings_step)
    finally show ?thesis by (simp add: rest savings_table_def)
  qed
qed

lemma pydict_set_nonempty: "pydict_set d k v \<noteq> []"
  by (cases d) auto

lemma savings_table_nonempty: "acc \<noteq> [] \<or> items \<noteq> [] \<Longrightarrow> savings_table m acc items \<noteq> []"
proof (induction items arbitrary: acc)
  case Nil
  then show ?case by (simp add: savings_table_def)
next
  case (Cons kv items)
  have "savings_table m (pydict_set acc (fst kv) (savings_of m (tokens_of kv))) items \<noteq> []"
    by (rule Cons.IH) (simp add: pydict_set_nonempty)
  then show ?case by (simp add: savings_table_def)
qed

lemma calculate_percentages_typed:
  assumes "token_counts pd"
  shows "calculate_percentages pd =
           Inr (if pd = [] \<or> Max (tokens_of ` set pd) = 0 then []
                else savings_table (Max (tokens_of ` set pd)) [] pd)"
proof (cases pd)
  case Nil
  then show ?thesis by (simp add: calculate_percentages_def)
next
  case (Cons first others)
  let ?m = "Max (tokens_of ` set pd)"
  have mx: "max_by item_tokens first others \<in> set pd"
    unfolding Cons by (rule max_by_in)
  have tm: "tokens_of (max_by item_tokens first others) = ?m"
    using assms unfolding Cons by (rule max_by_tokens)
  have pm: "total_tokens (snd (max_by item_tokens first others)) = PInt ?m"
    using token_counts_item [OF assms mx] tm by simp
  have le: "\<forall>kv \<in> set pd. tokens_of kv \<le> ?m" by simp
  have "calculate_percentages pd =
          (if ?m = 0 then Inr [] else savings_loop (PInt ?m) [] pd)"
    using pm by (simp add: calculate_percentages_def Cons Let_def del: savings_loop.simps)
  then show ?thesis
    using savings_loop_typed [OF assms le, of "[]"] by (simp add: Cons del: savings_loop.simps)
qed

lemma find_pydict_set:
  "pydict_find (pydict_set acc (JStr s) v) (JStr p) =
     (if p = s then Some v else pydict_find acc (JStr p))"
  by (induction acc) auto

lemma find_savings_table_other:
  "list_all (\<lambda>kv. is_str (fst kv)) items \<Longrightarrow> JStr p \<notin> fst ` set items \<Longrightarrow>
   pydict_find (savings_table m acc items) (JStr p) = pydict_find acc (JStr p)"
proof (induction items arbitrary: acc)
  case Nil
  then show ?case by (simp add: savings_table_def)
next
  case (Cons kv items)
  from Cons.prems obtain s where s: "fst kv = JStr s" by (cases "fst kv") auto
  with Cons.prems have "s \<noteq> p" by auto
  with Cons show ?case by (simp add: savings_table_def s find_pydict_set)
qed

lemma find_savings_table:
  "str_keyed items \<Longrightarrow> kv \<in> set items \<Longrightarrow>
   pydict_find (savings_table m acc items) (fst kv) = Some (savings_of m (tokens_of kv))"
proof (induction items arbitrary: acc)
  case Nil
  then show ?case by simp
next
  case (Cons x items)
  from Cons.prems(1) have sk: "str_keyed items" and strs: "list_all (\<lambda>kv. is_str (fst kv)) items"
    and fresh: "fst x \<notin> fst ` set items" and xs: "is_str (fst x)"
    by (simp_all add: str_keyed_def)
  from xs obtain s where s: "fst x = JStr s" by (cases "fst x") auto
  have step: "savings_table m acc (x # items)
                = savings_table m (pydict_set acc (fst x) (savings_of m (tokens_of x))) items"
    by (simp add: savings_table_def)
  show ?case
  proof (cases "kv = x")
    case True
    show ?thesis
      using fresh find_savings_table_other [OF strs, of s]
      by (simp add: step True s find_pydict_set)
  next
    case False
    with Cons.prems(2) have "kv \<in> set items" by simp
    then show ?thesis unfolding step by (rule Cons.IH [OF sk])
  qed
qed

lemma savings_bounds:
  assumes "0 \<le> t" and "t < m" and "m \<le> 2 ^ 1074"
  shows "0 < round_double (round_double (of_int (m - t) / of_int m) * 100)"
    and "round_double (round_double (of_int (m - t) / of_int m) * 100) \<le> 100"
proof -
  let ?q = "rat_of_int (m - t) / rat_of_int m"
  let ?tiny = "(2::rat) powi (- 1074)"
  have m: "0 < m" using assms by simp
  have q: "0 \<le> ?q" "?q \<le> 1" using assms m by simp_all
  have r1: "round_double ?q \<le> 1" using q by (rule round_double_le_1)
  have r0: "0 \<le> round_double ?q" using q(1) by (rule round_double_nonneg)
  show "round_double (round_double ?q * 100) \<le> 100"
    using r0 r1 by (intro round_double_le_100) simp_all
  have pos: "0 < ?tiny" by (rule zero_less_power_int) simp
  have "rat_of_int m \<le> of_int (2 ^ 1074)" using assms(3) by (simp only: of_int_le_iff)
  then have mb: "rat_of_int m \<le> 2 ^ 1074" by simp
  have tiny: "?tiny = 1 / 2 ^ 1074"
    using power_int_minus_divide [of "2::rat" 1074] by simp
  have "1 / 2 ^ 1074 \<le> 1 / rat_of_int m"
    using mb m by (intro divide_left_mono) simp_all
  also have "\<dots> \<le> ?q"
    using assms m by (intro divide_right_mono) simp_all
  finally have "?tiny \<le> ?q" by (simp only: tiny)
  then have a: "?tiny \<le> round_double ?q" by (rule round_double_tiny)
  have "round_double ?q * 1 \<le> round_double ?q * 100"
    using r0 by (intro mult_left_mono) simp_all
  with a have "?tiny \<le> round_double ?q * 100" by simp
  then have "?tiny \<le> round_double (round_double ?q * 100)" by (rule round_double_tiny)
  with pos show "0 < round_double (round_double ?q * 100)" by (rule less_le_trans)
qed

lemma savings_idle: "0 < m \<Longrightarrow> savings_of m 0 = PFloat (Fin 100)"
  by (simp add: savings_of_def round_double_1 round_double_100)

lemma example_metrics_typed:
  "token_counts scenario_metrics" "str_keyed scenario_metrics"
  "token_counts idle_metrics" "token_counts zero_metrics"
  by (simp_all add: token_counts_def str_keyed_def scenario_metrics_def idle_metrics_def
      zero_metrics_def with_tokens_def default_metrics_def)

lemma example_metrics_tokens:
  "tokens_of ` set scenario_metrics = {100, 50}"
  "tokens_of ` set idle_metrics = {100, 0}"
  "tokens_of ` set zero_metrics = {0}"
  by (simp_all add: tokens_of_def scenario_metrics_def idle_metrics_def zero_metrics_def
      with_tokens_def)

lemma savings_loop_nonempty:
  "savings_loop m acc items = Inr r \<Longrightarrow> acc \<noteq> [] \<or> items \<noteq> [] \<Longrightarrow> r \<noteq> []"
proof (induction items arbitrary: acc)
  case Nil
  then show ?case by simp
next
  case (Cons kv items)
  from Cons.prems(1) obtain v where "savings_loop m (pydict_set acc (fst kv) v) items = Inr r"
    by (auto simp: Let_def ebind_def split: if_splits sum.splits)
  then show ?case by (rule Cons.IH) (simp add: pydict_set_nonempty)
qed

lemma calculate_percentages_empty:
  "calculate_percentages pd = Inr [] \<longleftrightarrow>
     pd = [] \<or> py_eq (total_tokens (snd (max_by item_tokens (hd pd) (tl pd)))) (PInt 0)"
proof (cases pd)
  case Nil
  then show ?thesis by (simp add: calculate_percentages_def)
next
  case (Cons first others)
  have "savings_loop m [] (first # others) \<noteq> Inr []" for m
    using savings_loop_nonempty [of m "[]" "first # others" "[]"] by auto
  then show ?thesis
    by (simp add: calculate_percentages_def Cons Let_def del: savings_loop.simps)
qed

text \<open>
  Claim C3. For every mapping, the Ranker returns the empty mapping if and only if the
  input is empty or the maximum \<open>total_tokens\<close> it finds equals 0. On a mapping of token
  counts it always returns, the maximum it finds is the greatest total, and what it
  returns is non-empty in every other case.
\<close>

theorem percentages_empty_iff:
  "(calculate_percentages pd = Inr [] \<longleftrightarrow>
      pd = [] \<or> py_eq (total_tokens (snd (max_by item_tokens (hd pd) (tl pd)))) (PInt 0))
   \<and> (token_counts pd \<longrightarrow>
        (\<exists>pct. calculate_percentages pd = Inr pct
           \<and> (pct = [] \<longleftrightarrow> pd = [] \<or> Max (tokens_of ` set pd) = 0)))"
proof (intro conjI impI)
  show "calculate_percentages pd = Inr [] \<longleftrightarrow>
      pd = [] \<or> py_eq (total_tokens (snd (max_by item_tokens (hd pd) (tl pd)))) (PInt 0)"
    by (rule calculate_percentages_empty)
  assume "token_counts pd"
  then show "\<exists>pct. calculate_percentages pd = Inr pct
           \<and> (pct = [] \<longleftrightarrow> pd = [] \<or> Max (tokens_of ` set pd) = 0)"
    using savings_table_nonempty [of "[]" pd "Max (tokens_of ` set pd)"]
    by (simp add: calculate_percentages_typed)
qed

theorem percentages_empty_iff_witness:
  "token_counts zero_metrics
   \<and> (\<exists>pct. calculate_percentages zero_metrics = Inr pct
           \<and> (pct = [] \<longleftrightarrow> zero_metrics = [] \<or> Max (tokens_of ` set zero_metrics) = 0))"
  using example_metrics_typed(4) percentages_empty_iff [of zero_metrics] by simp

text \<open>
  Claim C2 as stated, a savings strictly below 100 for every provider under the maximum,
  fails for a provider whose \<open>total_tokens\<close> is 0: its savings is
  \<^verbatim>\<open>(100 - 0) / 100 * 100 = 100.0\<close>.
\<close>

theorem idle_provider_savings_is_100:
  "calculate_percentages idle_metrics
     = Inr [(JStr ''openai:chat:gpt-4'', PFloat (Fin 0)),
            (JStr ''anthropic:claude'', PFloat (Fin 100))]"
  by (simp add: calculate_percentages_typed [OF example_metrics_typed(3)]
      example_metrics_tokens savings_table_def savings_idle)
     (simp add: idle_metrics_def tokens_of_def with_tokens_def savings_of_def round_double_1
        round_double_100)

text \<open>
  Claim C2 as amended. For a non-empty mapping of token counts with string keys whose
  maximum \<open>m\<close> is not 0 (and not above \<open>2 ^ 1074\<close>, so that no quotient underflows to
  0.0), the Ranker gives savings 0.0 to every provider at the maximum, and to every other
  provider the double \<^verbatim>\<open>(m - tokens) / m * 100\<close>, which is greater than 0 and at most
  100, and is 100.0 for a provider with no tokens.
\<close>

theorem savings_of_each_provider:
  assumes "token_counts pd" and "str_keyed pd" and "pd \<noteq> []"
    and "m = Max (tokens_of ` set pd)" and "m \<noteq> 0" and "m \<le> 2 ^ 1074"
  shows "\<exists>pct. calculate_percentages pd = Inr pct
           \<and> (\<forall>kv \<in> set pd.
                 (tokens_of kv = m \<longrightarrow> pydict_find pct (fst kv) = Some (PFloat (Fin 0)))
               \<and> (tokens_of kv \<noteq> m \<longrightarrow>
                    (\<exists>s. pydict_find pct (fst kv) = Some (PFloat (Fin s))
                       \<and> s = round_double (round_double (of_int (m - tokens_of kv) / of_int m) * 100)
                       \<and> 0 < s \<and> s \<le> 100 \<and> (tokens_of kv = 0 \<longrightarrow> s = 100))))"
proof -
  have e: "calculate_percentages pd = Inr (savings_table m [] pd)"
    using assms(3,4,5) by (simp add: calculate_percentages_typed [OF assms(1)])
  have f: "pydict_find (savings_table m [] pd) (fst kv) = Some (savings_of m (tokens_of kv))"
    if "kv \<in> set pd" for kv
    using assms(2) that by (rule find_savings_table)
  have "(tokens_of kv = m \<longrightarrow> savings_of m (tokens_of kv) = PFloat (Fin 0))
      \<and> (tokens_of kv \<noteq> m \<longrightarrow>
           (\<exists>s. savings_of m (tokens_of kv) = PFloat (Fin s)
              \<and> s = round_double (round_double (of_int (m - tokens_of kv) / of_int m) * 100)
              \<and> 0 < s \<and> s \<le> 100 \<and> (tokens_of kv = 0 \<longrightarrow> s = 100)))"
    if kv: "kv \<in> set pd" for kv
  proof (cases "tokens_of kv = m")
    case True
    then show ?thesis by (simp add: savings_of_def)
  next
    case False
    have t0: "0 \<le> tokens_of kv" using token_counts_item [OF assms(1) kv] by simp
    have "tokens_of kv \<le> m" using kv by (simp add: assms(4))
    with False have lt: "tokens_of kv < m" by simp
    with t0 have mpos: "0 < m" by simp
    have idle: "tokens_of kv = 0 \<longrightarrow>
        round_double (round_double (of_int (m - tokens_of kv) / of_int m) * 100) = 100"
      using savings_idle [OF mpos] mpos by (auto simp: savings_of_def)
    show ?thesis
      using False savings_bounds [OF t0 lt assms(6)] idle by (simp add: savings_of_def)
  qed
  with e f show ?thesis by simp
qed

theorem savings_of_each_provider_witness:
  "token_counts scenario_metrics \<and> str_keyed scenario_metrics \<and> scenario_metrics \<noteq> []
   \<and> (100::int) = Max (tokens_of ` set scenario_metrics) \<and> (100::int) \<noteq> 0
   \<and> (100::int) \<le> 2 ^ 1074
   \<and> (\<exists>pct. calculate_percentages scenario_metrics = Inr pct
           \<and> (\<forall>kv \<in> set scenario_metrics.
                 (tokens_of kv = 100 \<longrightarrow> pydict_find pct (fst kv) = Some (PFloat (Fin 0)))
               \<and> (tokens_of kv \<noteq> 100 \<longrightarrow>
                    (\<exists>s. pydict_find pct (fst kv) = Some (PFloat (Fin s))
                       \<and> s = round_double (round_double (of_int (100 - tokens_of kv) / of_int 100) * 100)
                       \<and> 0 < s \<and> s \<le> 100 \<and> (tokens_of kv = 0 \<longrightarrow> s = 100)))))"
proof -
  have ne: "scenario_metrics \<noteq> []" by (simp add: scenario_metrics_def)
  have mx: "(100::int) = Max (tokens_of ` set scenario_metrics)"
    by (simp add: example_metrics_tokens)
  have nz: "(100::int) \<noteq> 0" by simp
  have le: "(100::int) \<le> 2 ^ 1074" by simp
  show ?thesis
    using example_metrics_typed(1,2) ne mx nz le
      savings_of_each_provider [OF example_metrics_typed(1,2) ne mx nz le]
    by blast
qed

subsection \<open>The report\<close>











subsection \<open>The exit status\<close>

text \<open>
  Claim C4 as stated, status 1 in exactly three situations, fails: a file that holds
  valid JSON of another shape, here the array \<^verbatim>\<open>[]\<close>, makes
  \<^verbatim>\<open>results_data.get\<close> raise an \<^verbatim>\<open>AttributeError\<close> that nothing catches, and the
  interpreter exits with status 1 although the file exists, parses and no empty mapping
  was aggregated.
\<close>

theorem uncaught_exception_exits_1:
  "exit_status (snd (main (world_with (JArr [])) [''analyze_tokens.py''])) = 1
   \<and> \<not> file_missing (world_with (JArr [])) (input_path [''analyze_tokens.py''])
   \<and> \<not> invalid_json (world_with (JArr [])) (input_path [''analyze_tokens.py''])
   \<and> \<not> no_provider_data (world_with (JArr [])) (input_path [''analyze_tokens.py''])"
  by (simp add: main_def load_results_def world_with_def file_missing_def invalid_json_def
      no_provider_data_def input_path_def extract_provider_data_def results_of_def Let_def)

text \<open>
  Claim C4 as amended. The run ends by \<^verbatim>\<open>sys.exit(1)\<close> in exactly three situations:
  the file does not exist (the output then names the path), its text is not valid JSON
  (the output then carries the parser's detail), or the aggregated mapping is empty. It
  returns, with status 0, exactly when the report was printed to its end. The status is
  always 0 or 1; it is 1 also when an exception ends the run.
\<close>

theorem exit_outcomes:
  "(snd (main rt argv) = SysExit 1 \<longleftrightarrow>
      file_missing rt (input_path argv) \<or> invalid_json rt (input_path argv)
      \<or> no_provider_data rt (input_path argv))
   \<and> (snd (main rt argv) = Returned \<longleftrightarrow> report_printed rt (input_path argv))
   \<and> (exit_status (snd (main rt argv)) = 0 \<longleftrightarrow> snd (main rt argv) = Returned)
   \<and> (exit_status (snd (main rt argv)) = 0 \<or> exit_status (snd (main rt argv)) = 1)
   \<and> (file_missing rt (input_path argv) \<longrightarrow>
        fst (main rt argv) =
          [''Loading results from: '' @ input_path argv,
           ''Error: File '' @ [CHR 0x27] @ input_path argv @ [CHR 0x27] @ '' not found.''])
   \<and> (\<forall>text detail. read_file rt (input_path argv) = FileText text
          \<and> json_loads rt text = Inl detail \<longrightarrow>
        fst (main rt argv) =
          [''Loading results from: '' @ input_path argv,
           ''Error: Invalid JSON in '' @ [CHR 0x27] @ input_path argv @ [CHR 0x27] @ '': '' @ detail])"
proof (intro conjI)
  show "snd (main rt argv) = SysExit 1 \<longleftrightarrow>
      file_missing rt (input_path argv) \<or> invalid_json rt (input_path argv)
      \<or> no_provider_data rt (input_path argv)"
    by (auto simp: main_def load_results_def file_missing_def invalid_json_def
        no_provider_data_def Let_def
        split: file_result.splits sum.splits prod.splits option.splits)
  show "snd (main rt argv) = Returned \<longleftrightarrow> report_printed rt (input_path argv)"
    by (auto simp: main_def load_results_def report_printed_def Let_def
        split: file_result.splits sum.splits prod.splits option.splits)
  show "exit_status (snd (main rt argv)) = 0 \<longleftrightarrow> snd (main rt argv) = Returned"
    by (auto simp: main_def load_results_def Let_def
        split: file_result.splits sum.splits prod.splits option.splits)
  show "exit_status (snd (main rt argv)) = 0 \<or> exit_status (snd (main rt argv)) = 1"
    by (auto simp: main_def load_results_def Let_def
        split: file_result.splits sum.splits prod.splits option.splits)
  show "file_missing rt (input_path argv) \<longrightarrow>
        fst (main rt argv) =
          [''Loading results from: '' @ input_path argv,
           ''Error: File '' @ [CHR 0x27] @ input_path argv @ [CHR 0x27] @ '' not found.'']"
    by (simp add: main_def load_results_def file_missing_def Let_def)
  show "\<forall>text detail. read_file rt (input_path argv) = FileText text
          \<and> json_loads rt text = Inl detail \<longrightarrow>
        fst (main rt argv) =
          [''Loading results from: '' @ input_path argv,
           ''Error: Invalid JSON in '' @ [CHR 0x27] @ input_path argv @ [CHR 0x27] @ '': '' @ detail]"
    by (simp add: main_def load_results_def Let_def)
qed

theorem exit_outcomes_witness:
  "file_missing empty_world (input_path [''analyze_tokens.py'', ''missing.json''])
   \<and> snd (main empty_world [''analyze_tokens.py'', ''missing.json'']) = SysExit 1
   \<and> fst (main empty_world [''analyze_tokens.py'', ''missing.json'']) =
        [''Loading results from: missing.json'',
         ''Error: File '' @ [CHR 0x27] @ ''missing.json'' @ [CHR 0x27] @ '' not found.'']"
proof -
  have m: "file_missing empty_world (input_path [''analyze_tokens.py'', ''missing.json''])"
    by (simp add: file_missing_def empty_world_def)
  have p: "input_path [''analyze_tokens.py'', ''missing.json''] = ''missing.json''"
    by (simp add: input_path_def)
  show ?thesis
    using m exit_outcomes [of empty_world "[''analyze_tokens.py'', ''missing.json'']"]
    by (simp add: p)
qed

end
